theory Spec2Isabelle
  imports Main "HOL-Library.Word" "HOL-Library.While_Combinator"
begin

section \<open>Talos: the World orchestrator and its collaborators\<close>

text \<open>
  A shallow embedding of \<^verbatim>\<open>Source/World/World.cpp\<close>,
  \<^verbatim>\<open>Source/System/PhysicsSystem.cpp\<close> and
  \<^verbatim>\<open>Source/Command/Actor/MoveBackward.hpp\<close>. Objects reached through pointers
  live in an explicit store (the members of the World), pointers are indices into that
  store, and every dereference of a pointer that may be null is a branch that faults.
  Where the order of the statements of a function matters, the function is given
  statement by statement: its definition yields the world after each statement, and
  what the caller sees is the last of these worlds.
\<close>

subsection \<open>Faults\<close>

datatype fault =
    NullDereference
  | InvalidPointer
  | AssertFailed string

subsection \<open>Entities and the entity pool\<close>

type_synonym EntityID = nat

text \<open>An \<^verbatim>\<open>EntityPtr\<close> is an \<^verbatim>\<open>Entity*\<close> into \<^verbatim>\<open>m_pool\<close>: the slot index, or
  \<open>None\<close> for \<^verbatim>\<open>nullptr\<close>.\<close>

type_synonym EntityPtr = "nat option"

datatype kind = Actor | Camera | Light | Model | Physics | Scene

text \<open>A pointer to a component is the index of the component in the pool of its kind.\<close>

type_synonym ComponentPtr = "nat option"

text \<open>Modelled from the spec: the class \<^verbatim>\<open>Entity\<close> is not among the source files.
  An entity is an identity plus at most one attached component per kind, and a slot of
  the pool is either live or free.\<close>

record Entity =
  m_id :: EntityID
  m_alive :: bool
  m_components :: "kind \<Rightarrow> ComponentPtr"

text \<open>Modelled from the spec: the class \<^verbatim>\<open>EntityPool\<close> is not among the source
  files. The pool is a fixed array of slots; identities come from a counter, so that an
  identity is never handed out twice.\<close>

record EntityPool =
  m_pool :: "Entity list"
  m_nextID :: EntityID

definition m_poolSize :: "EntityPool \<Rightarrow> nat" where
  "m_poolSize p = length (m_pool p)"

definition freeEntity :: Entity where
  "freeEntity = \<lparr>m_id = 0, m_alive = False, m_components = (\<lambda>k. None)\<rparr>"

text \<open>Modelled from the spec: \<^verbatim>\<open>EntityPool(n)\<close> allocates \<open>n\<close> free slots once.\<close>

definition EntityPool_new :: "nat \<Rightarrow> EntityPool" where
  "EntityPool_new n = \<lparr>m_pool = replicate n freeEntity, m_nextID = 1\<rparr>"

fun firstFree :: "Entity list \<Rightarrow> nat option" where
  "firstFree [] = None"
| "firstFree (e # es) =
     (if \<not> m_alive e then Some 0
      else (case firstFree es of None \<Rightarrow> None | Some i \<Rightarrow> Some (Suc i)))"

text \<open>Modelled from the spec: \<^verbatim>\<open>EntityPool::create()\<close> returns a handle to a free slot,
  which becomes live under a new identity, or fails when no slot is free. The return type
  is \<^verbatim>\<open>EntityPtr\<close>, so the failure (PoolExhausted) is the null handle.\<close>

definition EntityPool_create :: "EntityPool \<Rightarrow> EntityPtr \<times> EntityPool" where
  "EntityPool_create p =
     (case firstFree (m_pool p) of
        None \<Rightarrow> (None, p)
      | Some i \<Rightarrow>
          (Some i,
           p\<lparr>m_pool := (m_pool p)[i := \<lparr>m_id = m_nextID p, m_alive = True,
                                         m_components = (\<lambda>k. None)\<rparr>],
             m_nextID := Suc (m_nextID p)\<rparr>))"

text \<open>Modelled from the spec: \<^verbatim>\<open>EntityPool::destroy(handle)\<close> returns the slot to the
  free set, detaching its components, and is a no-op when the handle is null, foreign or
  already free.\<close>

definition EntityPool_destroy :: "EntityPtr \<Rightarrow> EntityPool \<Rightarrow> EntityPool" where
  "EntityPool_destroy e p =
     (case e of
        None \<Rightarrow> p
      | Some i \<Rightarrow>
          (if i < m_poolSize p \<and> m_alive (m_pool p ! i)
           then p\<lparr>m_pool := (m_pool p)[i := (m_pool p ! i)\<lparr>m_alive := False,
                                                          m_components := (\<lambda>k. None)\<rparr>]\<rparr>
           else p))"

text \<open>Dereferencing an \<^verbatim>\<open>EntityPtr\<close>: null and out-of-pool pointers fault.\<close>

definition deref :: "EntityPool \<Rightarrow> EntityPtr \<Rightarrow> fault + Entity" where
  "deref p e =
     (case e of
        None \<Rightarrow> Inl NullDereference
      | Some i \<Rightarrow> (if i < m_poolSize p then Inr (m_pool p ! i) else Inl InvalidPointer))"

subsection \<open>Components and the component factory\<close>

text \<open>A \<^verbatim>\<open>float\<close> is kept as its 32-bit pattern: the code only copies these values.\<close>

type_synonym float = "32 word"

record PxVec3 =
  vx :: float
  vy :: float
  vz :: float

record PxQuat =
  qx :: float
  qy :: float
  qz :: float
  qw :: float

record PxTransform =
  q :: PxQuat
  p :: PxVec3

text \<open>Modelled from the spec: the component classes are not among the source files.
  One record stands for the base class \<^verbatim>\<open>Component\<close> together with the members of the
  concrete classes that the code below reads or writes: the moving-backward flag of an
  \<^verbatim>\<open>ActorComponent\<close>, the position and orientation (w, x, y, z) of a
  \<^verbatim>\<open>SceneComponent\<close>, and the rigid actor of a \<^verbatim>\<open>PhysicsComponent\<close>.\<close>

record Component =
  c_inUse :: bool
  c_initialized :: bool
  c_movingBackward :: bool
  c_position :: "float \<times> float \<times> float"
  c_orientation :: "float \<times> float \<times> float \<times> float"
  c_rigidActor :: "nat option"

type_synonym ComponentFactory = "kind \<Rightarrow> Component list"


definition freshComponent :: Component where
  "freshComponent =
     \<lparr>c_inUse = True, c_initialized = False, c_movingBackward = False,
      c_position = (0, 0, 0), c_orientation = (0, 0, 0, 0), c_rigidActor = None\<rparr>"

definition unusedComponent :: Component where
  "unusedComponent = freshComponent\<lparr>c_inUse := False\<rparr>"

fun firstUnused :: "Component list \<Rightarrow> nat option" where
  "firstUnused [] = None"
| "firstUnused (c # cs) =
     (if \<not> c_inUse c then Some 0
      else (case firstUnused cs of None \<Rightarrow> None | Some i \<Rightarrow> Some (Suc i)))"

text \<open>Modelled from the spec: \<^verbatim>\<open>ComponentFactory\<close> is not among the source files.
  Each \<^verbatim>\<open>create<Kind>Component()\<close> draws from the fixed pool of that kind and fails
  (null pointer) on exhaustion; the factory does not initialise the component.\<close>

definition ComponentFactory_create ::
    "kind \<Rightarrow> ComponentFactory \<Rightarrow> ComponentPtr \<times> ComponentFactory" where
  "ComponentFactory_create k f =
     (case firstUnused (f k) of
        None \<Rightarrow> (None, f)
      | Some j \<Rightarrow> (Some j, f(k := (f k)[j := freshComponent])))"

definition ComponentFactory_new :: "nat \<Rightarrow> ComponentFactory" where
  "ComponentFactory_new n = (\<lambda>k. replicate n unusedComponent)"

definition derefC :: "ComponentFactory \<Rightarrow> kind \<Rightarrow> ComponentPtr \<Rightarrow> fault + Component" where
  "derefC f k c =
     (case c of
        None \<Rightarrow> Inl NullDereference
      | Some j \<Rightarrow> (if j < length (f k) then Inr (f k ! j) else Inl InvalidPointer))"

subsection \<open>Network roles\<close>

text \<open>From \<^verbatim>\<open>Server.hpp\<close>: the initialised flag and the table of connected players
  (connection identity, user name, entity).\<close>

record Server =
  m_initialized :: bool
  m_players :: "(nat \<times> string \<times> EntityPtr) list"

text \<open>Modelled from the spec: \<^verbatim>\<open>Client\<close> is not among the source files.\<close>

record Client =
  c_connected :: bool

text \<open>What \<^verbatim>\<open>Network* m_network\<close> may hold: \<^verbatim>\<open>nullptr\<close> (the constructor), the
  file-level \<^verbatim>\<open>static Network* SNullNetwork\<close>, \<^verbatim>\<open>m_server.get()\<close> or
  \<^verbatim>\<open>m_client.get()\<close>.\<close>

datatype NetworkPtr = nullptr | SNullNetwork | m_server_get | m_client_get

subsection \<open>Systems and the physics scene\<close>

text \<open>The physics scene holds the global pose of every rigid actor.\<close>

type_synonym PScene = "nat \<rightharpoonup> PxTransform"

text \<open>A registered system: the \<^verbatim>\<open>PhysicsSystem\<close> with its \<^verbatim>\<open>m_entities\<close>, or a
  system whose code is not among the source files, named by a number.\<close>

datatype System =
    PhysicsSystem "(EntityID \<times> EntityPtr) list"
  | OtherSystem nat

subsection \<open>The World\<close>

text \<open>The members of the World that the functions below read or write. The rendering
  objects are outside: of the viewport only the camera component whose camera it shows is
  kept (\<open>m_viewport\<close>).\<close>

record World =
  m_PScene :: PScene
  m_usePhysics :: bool
  m_network :: NetworkPtr
  m_server :: Server
  m_client :: Client
  m_entityPool :: EntityPool
  m_entityIDMap :: "EntityID \<rightharpoonup> EntityPtr"
  m_componentFactory :: ComponentFactory
  m_systemManager :: "System list"
  m_player :: EntityPtr
  m_hasPlayer :: bool
  m_mainCameraC :: ComponentPtr
  m_viewport :: ComponentPtr

definition andThen :: "fault + 'a \<Rightarrow> ('a \<Rightarrow> fault + 'b) \<Rightarrow> fault + 'b" where
  "andThen m f = (case m of Inl x \<Rightarrow> Inl x | Inr a \<Rightarrow> f a)"

subsection \<open>Entity functions of the World\<close>

text \<open>\<^verbatim>\<open>World::createEntity\<close>, statement by statement: the world after
  \<^verbatim>\<open>EntityPtr e = m_entityPool->create()\<close>, then the world after
  \<^verbatim>\<open>m_entityIDMap[e->getID()] = e\<close>. The handle returned by the pool is
  dereferenced (\<^verbatim>\<open>e->getID()\<close>) without a test.\<close>

definition World_createEntity_states :: "World \<Rightarrow> fault + (EntityPtr \<times> World list)" where
  "World_createEntity_states w =
     (let (e, pool) = EntityPool_create (m_entityPool w);
          w1 = w\<lparr>m_entityPool := pool\<rparr>
      in andThen (deref (m_entityPool w1) e)
           (\<lambda>ent. Inr (e, [w1, w1\<lparr>m_entityIDMap := (m_entityIDMap w1)(m_id ent \<mapsto> e)\<rparr>])))"

text \<open>What the caller of \<^verbatim>\<open>World::createEntity\<close> gets: the handle, and the world
  after the last statement.\<close>

definition World_createEntity :: "World \<Rightarrow> fault + (EntityPtr \<times> World)" where
  "World_createEntity w =
     andThen (World_createEntity_states w) (\<lambda>(e, ws). Inr (e, last ws))"

text \<open>\<^verbatim>\<open>World::destroyEntity\<close>, statement by statement: the world after
  \<^verbatim>\<open>m_entityIDMap.erase(e->getID())\<close>, then the world after
  \<^verbatim>\<open>m_entityPool->destroy(e)\<close>.\<close>

definition World_destroyEntity_states :: "EntityPtr \<Rightarrow> World \<Rightarrow> fault + World list" where
  "World_destroyEntity_states e w =
     andThen (deref (m_entityPool w) e)
       (\<lambda>ent. let w1 = w\<lparr>m_entityIDMap := (m_entityIDMap w)(m_id ent := None)\<rparr>;
                  w2 = w1\<lparr>m_entityPool := EntityPool_destroy e (m_entityPool w1)\<rparr>
              in Inr [w1, w2])"

definition World_destroyEntity :: "EntityPtr \<Rightarrow> World \<Rightarrow> fault + World" where
  "World_destroyEntity e w =
     andThen (World_destroyEntity_states e w) (\<lambda>ws. Inr (last ws))"

definition World_getEntityPtr :: "EntityID \<Rightarrow> World \<Rightarrow> EntityPtr" where
  "World_getEntityPtr ident w =
     (if m_entityIDMap w ident \<noteq> None then the (m_entityIDMap w ident) else None)"


subsection \<open>Network functions of the World\<close>

text \<open>Modelled from the spec: \<^verbatim>\<open>NullNetwork\<close>, \<^verbatim>\<open>Client\<close> and the bodies of
  \<^verbatim>\<open>Server::init\<close> and \<^verbatim>\<open>Server::destroy\<close> are not among the source files.
  The disabled role is never initialised; \<^verbatim>\<open>init\<close> makes \<^verbatim>\<open>initialized()\<close> true;
  \<^verbatim>\<open>destroy\<close> tears down the participant records and the connection.\<close>

definition Server_init :: "int \<Rightarrow> string \<Rightarrow> Server \<Rightarrow> Server" where
  "Server_init port username s = s\<lparr>m_initialized := True\<rparr>"

definition Server_destroy :: "Server \<Rightarrow> Server" where
  "Server_destroy s = s\<lparr>m_initialized := False, m_players := []\<rparr>"

definition Client_init :: "Client \<Rightarrow> Client" where
  "Client_init c = c\<lparr>c_connected := True\<rparr>"

definition Client_destroy :: "Client \<Rightarrow> Client" where
  "Client_destroy c = c\<lparr>c_connected := False\<rparr>"

text \<open>The virtual call \<^verbatim>\<open>m_network->initialized()\<close>; for the server it is the inline
  function of \<^verbatim>\<open>Server.hpp\<close>.\<close>

definition Network_initialized :: "World \<Rightarrow> fault + bool" where
  "Network_initialized w =
     (case m_network w of
        nullptr \<Rightarrow> Inl NullDereference
      | SNullNetwork \<Rightarrow> Inr False
      | m_server_get \<Rightarrow> Inr (m_initialized (m_server w))
      | m_client_get \<Rightarrow> Inr (c_connected (m_client w)))"

text \<open>The virtual call \<^verbatim>\<open>m_network->destroy()\<close>.\<close>

definition Network_destroy :: "World \<Rightarrow> fault + World" where
  "Network_destroy w =
     (case m_network w of
        nullptr \<Rightarrow> Inl NullDereference
      | SNullNetwork \<Rightarrow> Inr w
      | m_server_get \<Rightarrow> Inr (w\<lparr>m_server := Server_destroy (m_server w)\<rparr>)
      | m_client_get \<Rightarrow> Inr (w\<lparr>m_client := Client_destroy (m_client w)\<rparr>))"

text \<open>Modelled from the spec: the macro \<^verbatim>\<open>Assert(condition, message)\<close> is not among the
  source files; a violated assertion is fatal.\<close>

definition Assert :: "bool \<Rightarrow> string \<Rightarrow> fault + unit" where
  "Assert c msg = (if c then Inr () else Inl (AssertFailed msg))"

definition World_initServer :: "int \<Rightarrow> string \<Rightarrow> World \<Rightarrow> fault + World" where
  "World_initServer port username w =
     andThen (Network_initialized w) (\<lambda>b.
     andThen (Assert (b = False) ''Trying to init Server with Network already initialized'')
       (\<lambda>_. Inr (w\<lparr>m_network := m_server_get,
                    m_server := Server_init port username (m_server w)\<rparr>)))"

definition World_destroyServer :: "World \<Rightarrow> fault + World" where
  "World_destroyServer w =
     andThen (Network_destroy w) (\<lambda>w1. Inr (w1\<lparr>m_network := SNullNetwork\<rparr>))"

definition World_initClient :: "World \<Rightarrow> fault + World" where
  "World_initClient w =
     andThen (Network_initialized w) (\<lambda>b.
     andThen (Assert (b = False) ''Trying to init Client with Network already initialized'')
       (\<lambda>_. Inr (w\<lparr>m_network := m_client_get,
                    m_client := Client_init (m_client w)\<rparr>)))"

definition World_destroyClient :: "World \<Rightarrow> fault + World" where
  "World_destroyClient w =
     andThen (Network_destroy w) (\<lambda>w1. Inr (w1\<lparr>m_network := SNullNetwork\<rparr>))"

subsection \<open>Construction of the World's subsystems\<close>

definition World_initPhysics :: "World \<Rightarrow> World" where
  "World_initPhysics w = w\<lparr>m_PScene := Map.empty, m_usePhysics := True\<rparr>"

text \<open>\<^verbatim>\<open>World::init\<close>, without the rendering scene and the environment. The capacity of
  the component pools is set inside \<^verbatim>\<open>ComponentFactory::init\<close>, which is not among
  the source files: it is the parameter \<open>n\<close>. \<^verbatim>\<open>init\<close> does not touch
  \<^verbatim>\<open>m_entityIDMap\<close>: an entry that it finds there is a pointer into the pool that
  \<^verbatim>\<open>reset\<close> releases. With pointers as slot indices such an entry names a slot of
  the new pool or none, and never a live one: a World that is initialised while its map
  has entries is not well-formed, and no property below takes its stale entries for
  entities.\<close>

definition World_init :: "nat \<Rightarrow> bool \<Rightarrow> World \<Rightarrow> World" where
  "World_init n usePhysics w =
     (let w1 = (if usePhysics then World_initPhysics w else w);
          w2 = w1\<lparr>m_entityPool := EntityPool_new 256,
                  m_componentFactory := ComponentFactory_new n,
                  m_systemManager := []\<rparr>
      in if m_initialized (m_server w2) then w2\<lparr>m_network := m_server_get\<rparr>
         else if c_connected (m_client w2) then w2\<lparr>m_network := m_client_get\<rparr>
         else w2\<lparr>m_network := SNullNetwork\<rparr>)"

subsection \<open>Attaching components\<close>

text \<open>Modelled from the spec: \<^verbatim>\<open>Component::init(World&)\<close> and
  \<^verbatim>\<open>Entity::attachComponent\<close> are not among the source files. The first completes
  the initialisation of the component, the second makes the component the entity's
  component of that kind.\<close>

definition Component_init :: "kind \<Rightarrow> ComponentPtr \<Rightarrow> World \<Rightarrow> fault + World" where
  "Component_init k c w =
     andThen (derefC (m_componentFactory w) k c)
       (\<lambda>comp. Inr (w\<lparr>m_componentFactory :=
            (m_componentFactory w)(k := (m_componentFactory w k)[the c :=
               comp\<lparr>c_initialized := True\<rparr>])\<rparr>))"

definition Entity_attachComponent ::
    "kind \<Rightarrow> ComponentPtr \<Rightarrow> EntityPtr \<Rightarrow> World \<Rightarrow> fault + World" where
  "Entity_attachComponent k c e w =
     andThen (deref (m_entityPool w) e)
       (\<lambda>ent. Inr (w\<lparr>m_entityPool := (m_entityPool w)\<lparr>m_pool :=
            (m_pool (m_entityPool w))[the e :=
               ent\<lparr>m_components := (m_components ent)(k := c)\<rparr>]\<rparr>\<rparr>))"

text \<open>The file-local \<^verbatim>\<open>initComponent\<close>, "called by all World::attachComponent<T>
  specializations", statement by statement: the world after
  \<^verbatim>\<open>component->init(*world)\<close>, then the world after
  \<^verbatim>\<open>entity->attachComponent(component)\<close>.\<close>

definition initComponent_states ::
    "kind \<Rightarrow> ComponentPtr \<Rightarrow> EntityPtr \<Rightarrow> World \<Rightarrow> fault + World list" where
  "initComponent_states k component entity world =
     andThen (Component_init k component world) (\<lambda>w1.
     andThen (Entity_attachComponent k component entity w1) (\<lambda>w2. Inr [w1, w2]))"

definition initComponent :: "kind \<Rightarrow> ComponentPtr \<Rightarrow> EntityPtr \<Rightarrow> World \<Rightarrow> fault + World" where
  "initComponent k component entity world =
     andThen (initComponent_states k component entity world) (\<lambda>ws. Inr (last ws))"

text \<open>The first statement of every specialisation: \<^verbatim>\<open>m_componentFactory->create...()\<close>.\<close>

definition World_attachComponent_create :: "kind \<Rightarrow> World \<Rightarrow> ComponentPtr \<times> World" where
  "World_attachComponent_create k w =
     (let (c, f) = ComponentFactory_create k (m_componentFactory w)
      in (c, w\<lparr>m_componentFactory := f\<rparr>))"





subsection \<open>The physics system\<close>

text \<open>Modelled from the spec: \<^verbatim>\<open>Entity::getComponent<T>\<close>, the setters of
  \<^verbatim>\<open>SceneComponent\<close> and \<^verbatim>\<open>PhysicsComponent::getRigidActor\<close> are not among the
  source files. An entity answers with its component of the kind or with
  \<^verbatim>\<open>nullptr\<close>; the setters store their arguments.\<close>

definition Entity_getComponent :: "kind \<Rightarrow> EntityPtr \<Rightarrow> World \<Rightarrow> fault + ComponentPtr" where
  "Entity_getComponent k e w =
     andThen (deref (m_entityPool w) e) (\<lambda>ent. Inr (m_components ent k))"

definition writeComponent :: "kind \<Rightarrow> ComponentPtr \<Rightarrow> (Component \<Rightarrow> Component) \<Rightarrow> World \<Rightarrow> fault + World" where
  "writeComponent k c upd w =
     andThen (derefC (m_componentFactory w) k c)
       (\<lambda>comp. Inr (w\<lparr>m_componentFactory :=
            (m_componentFactory w)(k := (m_componentFactory w k)[the c := upd comp])\<rparr>))"

definition SceneComponent_setPosition ::
    "ComponentPtr \<Rightarrow> float \<Rightarrow> float \<Rightarrow> float \<Rightarrow> World \<Rightarrow> fault + World" where
  "SceneComponent_setPosition c x y z w =
     writeComponent Scene c (\<lambda>comp. comp\<lparr>c_position := (x, y, z)\<rparr>) w"

definition SceneComponent_setOrientation ::
    "ComponentPtr \<Rightarrow> float \<Rightarrow> float \<Rightarrow> float \<Rightarrow> float \<Rightarrow> World \<Rightarrow> fault + World" where
  "SceneComponent_setOrientation c w' x y z w =
     writeComponent Scene c (\<lambda>comp. comp\<lparr>c_orientation := (w', x, y, z)\<rparr>) w"

text \<open>\<^verbatim>\<open>physicsC->getRigidActor()->getGlobalPose()\<close>: the pose the engine reports now.\<close>

definition getGlobalPose :: "ComponentPtr \<Rightarrow> World \<Rightarrow> fault + PxTransform" where
  "getGlobalPose physicsC w =
     andThen (derefC (m_componentFactory w) Physics physicsC) (\<lambda>comp.
       (case c_rigidActor comp of
          None \<Rightarrow> Inl NullDereference
        | Some a \<Rightarrow> (case m_PScene w a of None \<Rightarrow> Inl InvalidPointer | Some t \<Rightarrow> Inr t)))"

text \<open>The body of the loop of \<^verbatim>\<open>PhysicsSystem::update\<close> for one element \<open>i\<close> of
  \<^verbatim>\<open>m_entities\<close>.\<close>

definition PhysicsSystem_update_body :: "EntityID \<times> EntityPtr \<Rightarrow> World \<Rightarrow> fault + World" where
  "PhysicsSystem_update_body i w =
     andThen (Entity_getComponent Physics (snd i) w) (\<lambda>physicsC.
     andThen (Entity_getComponent Scene (snd i) w) (\<lambda>sceneC.
     andThen (getGlobalPose physicsC w) (\<lambda>transform.
     andThen (SceneComponent_setPosition sceneC
                (vx (p transform)) (vy (p transform)) (vz (p transform)) w) (\<lambda>w1.
     SceneComponent_setOrientation sceneC
        (qw (q transform)) (qx (q transform)) (qy (q transform)) (qz (q transform)) w1))))"

fun PhysicsSystem_update :: "(EntityID \<times> EntityPtr) list \<Rightarrow> World \<Rightarrow> fault + World" where
  "PhysicsSystem_update [] w = Inr w"
| "PhysicsSystem_update (i # rest) w =
     andThen (PhysicsSystem_update_body i w) (PhysicsSystem_update rest)"

subsection \<open>The per-frame update\<close>

text \<open>The collaborators whose code is not among the source files are parameters:
  the per-frame work of the server and of the client, of the systems other than the
  physics system, of each entity slot (\<^verbatim>\<open>Entity::update(World&)\<close>), of the physics
  engine (\<^verbatim>\<open>PScene::simulate\<close>) and of the environment; the other functions of the
  environment; \<^verbatim>\<open>Entity::destroy(World&)\<close> and \<^verbatim>\<open>Entity::setupComponents()\<close> of
  each slot; \<^verbatim>\<open>SystemManager::addEntity\<close>; \<^verbatim>\<open>PScene::destroy\<close>; and
  \<^verbatim>\<open>Input::handle\<close>, from an event to a command, both named by numbers.\<close>

record Collaborators =
  Server_update :: "World \<Rightarrow> World"
  Client_update :: "World \<Rightarrow> World"
  System_update :: "nat \<Rightarrow> World \<Rightarrow> World"
  Entity_update :: "nat \<Rightarrow> World \<Rightarrow> World"
  PScene_simulate :: "PScene \<Rightarrow> PScene"
  Environment_update :: "World \<Rightarrow> World"
  Environment_destroy :: "World \<Rightarrow> World"
  Environment_pause :: "World \<Rightarrow> World"
  Environment_resume :: "World \<Rightarrow> World"
  Entity_destroy :: "nat \<Rightarrow> World \<Rightarrow> World"
  Entity_setupComponents :: "nat \<Rightarrow> World \<Rightarrow> bool \<times> World"
  SystemManager_addEntity :: "EntityPtr \<Rightarrow> World \<Rightarrow> World"
  PScene_destroy :: "PScene \<Rightarrow> PScene"
  Input_handle :: "nat \<Rightarrow> nat"

text \<open>The calls that \<^verbatim>\<open>World::update\<close> makes, in a log kept beside the World.\<close>

datatype event =
    NetworkUpdate
  | SystemManagerUpdate
  | EntityUpdate nat
  | PhysicsSimulate
  | EnvironmentUpdate

type_synonym run = "World \<times> event list"

text \<open>The virtual call \<^verbatim>\<open>m_network->update()\<close>. Modelled from the spec: the update of the
  disabled role does nothing.\<close>

definition Network_update :: "Collaborators \<Rightarrow> World \<Rightarrow> fault + World" where
  "Network_update cb w =
     (case m_network w of
        nullptr \<Rightarrow> Inl NullDereference
      | SNullNetwork \<Rightarrow> Inr w
      | m_server_get \<Rightarrow> Inr (Server_update cb w)
      | m_client_get \<Rightarrow> Inr (Client_update cb w))"

text \<open>Modelled from the spec: \<^verbatim>\<open>SystemManager::update\<close> is not among the source
  files; it invokes the update of each registered system, in registration order.\<close>

fun SystemManager_update_each :: "Collaborators \<Rightarrow> System list \<Rightarrow> World \<Rightarrow> fault + World" where
  "SystemManager_update_each cb [] w = Inr w"
| "SystemManager_update_each cb (PhysicsSystem ents # rest) w =
     andThen (PhysicsSystem_update ents w) (SystemManager_update_each cb rest)"
| "SystemManager_update_each cb (OtherSystem n # rest) w =
     SystemManager_update_each cb rest (System_update cb n w)"

definition SystemManager_update :: "Collaborators \<Rightarrow> World \<Rightarrow> fault + World" where
  "SystemManager_update cb w = SystemManager_update_each cb (m_systemManager w) w"

text \<open>The first two statements of \<^verbatim>\<open>World::update\<close>, each with its entry in the log.\<close>

definition update_network :: "Collaborators \<Rightarrow> run \<Rightarrow> fault + run" where
  "update_network cb r =
     andThen (Network_update cb (fst r)) (\<lambda>w. Inr (w, snd r @ [NetworkUpdate]))"

definition update_systems :: "Collaborators \<Rightarrow> run \<Rightarrow> fault + run" where
  "update_systems cb r =
     andThen (SystemManager_update cb (fst r)) (\<lambda>w. Inr (w, snd r @ [SystemManagerUpdate]))"

text \<open>One iteration of the loop over the pool: \<^verbatim>\<open>m_entityPool->m_pool[i].update(*this)\<close>.\<close>

definition update_entity :: "Collaborators \<Rightarrow> run \<Rightarrow> nat \<Rightarrow> run" where
  "update_entity cb r i = (Entity_update cb i (fst r), snd r @ [EntityUpdate i])"

text \<open>The loop over the pool, \<^verbatim>\<open>for (int i = 0; i < m_entityPool->m_poolSize; ++i)\<close>:
  the bound is read again before every iteration, so the loop need not end when an
  update changes the size of the pool; \<open>None\<close> is the loop that does not end.\<close>

definition update_entities_loop :: "Collaborators \<Rightarrow> run \<Rightarrow> run option" where
  "update_entities_loop cb r =
     map_option snd
       (while_option (\<lambda>(i, r). i < m_poolSize (m_entityPool (fst r)))
          (\<lambda>(i, r). (Suc i, update_entity cb r i)) (0, r))"

text \<open>The last two statements of \<^verbatim>\<open>World::update\<close>: \<^verbatim>\<open>m_PScene->simulate()\<close> under
  \<^verbatim>\<open>if (m_usePhysics)\<close>, and \<^verbatim>\<open>m_environment->update()\<close>.\<close>

definition update_physics :: "Collaborators \<Rightarrow> run \<Rightarrow> run" where
  "update_physics cb r =
     (if m_usePhysics (fst r)
      then ((fst r)\<lparr>m_PScene := PScene_simulate cb (m_PScene (fst r))\<rparr>,
            snd r @ [PhysicsSimulate])
      else r)"

definition update_environment :: "Collaborators \<Rightarrow> run \<Rightarrow> run" where
  "update_environment cb r = (Environment_update cb (fst r), snd r @ [EnvironmentUpdate])"

text \<open>\<^verbatim>\<open>World::update\<close>: the network update, the update of the system manager, the
  loop over the pool, the physics step if \<^verbatim>\<open>m_usePhysics\<close>, the update of the
  environment. A fault ends the frame; \<open>None\<close> is the frame whose loop does not end.\<close>

definition World_update :: "Collaborators \<Rightarrow> run \<Rightarrow> (fault + run) option" where
  "World_update cb r =
     (case update_network cb r of
        Inl f \<Rightarrow> Some (Inl f)
      | Inr r1 \<Rightarrow>
          (case update_systems cb r1 of
             Inl f \<Rightarrow> Some (Inl f)
           | Inr r2 \<Rightarrow>
               (case update_entities_loop cb r2 of
                  None \<Rightarrow> None
                | Some r3 \<Rightarrow> Some (Inr (update_environment cb (update_physics cb r3))))))"

subsection \<open>The other functions of the World\<close>












subsection \<open>The move-backward command\<close>

text \<open>Modelled from the spec: \<^verbatim>\<open>Entity::getActorComponent\<close> and
  \<^verbatim>\<open>ActorComponent::setMovingBackward\<close> are not among the source files; the
  setter stores its argument.\<close>

definition Entity_getActorComponent :: "EntityPtr \<Rightarrow> World \<Rightarrow> fault + ComponentPtr" where
  "Entity_getActorComponent e w = Entity_getComponent Actor e w"

definition ActorComponent_setMovingBackward :: "ComponentPtr \<Rightarrow> bool \<Rightarrow> World \<Rightarrow> fault + World" where
  "ActorComponent_setMovingBackward c b w =
     writeComponent Actor c (\<lambda>comp. comp\<lparr>c_movingBackward := b\<rparr>) w"

definition MoveBackwardCommand_execute :: "EntityPtr \<Rightarrow> World \<Rightarrow> fault + World" where
  "MoveBackwardCommand_execute entity w =
     andThen (Entity_getActorComponent entity w)
       (\<lambda>actor. ActorComponent_setMovingBackward actor True w)"

definition MoveBackwardCommand_unexecute :: "EntityPtr \<Rightarrow> World \<Rightarrow> fault + World" where
  "MoveBackwardCommand_unexecute entity w =
     andThen (Entity_getActorComponent entity w)
       (\<lambda>actor. ActorComponent_setMovingBackward actor False w)"

subsection \<open>Well-formed worlds and an example\<close>

text \<open>A world with a pool of two slots. Slot 0 is the live entity 1, with an actor, a
  physics and a scene component; slot 1 is free. The physics system tracks entity 1.\<close>

definition exampleWorld :: World where
  "exampleWorld =
     \<lparr>m_PScene = [0 \<mapsto> \<lparr>q = \<lparr>qx = 0, qy = 0, qz = 0, qw = 1\<rparr>, p = \<lparr>vx = 1, vy = 2, vz = 3\<rparr>\<rparr>],
      m_usePhysics = True,
      m_network = SNullNetwork,
      m_server = \<lparr>m_initialized = False, m_players = []\<rparr>,
      m_client = \<lparr>c_connected = False\<rparr>,
      m_entityPool =
        \<lparr>m_pool = [\<lparr>m_id = 1, m_alive = True,
                    m_components = (\<lambda>k. if k = Actor \<or> k = Physics \<or> k = Scene then Some 0 else None)\<rparr>,
                   freeEntity],
         m_nextID = 2\<rparr>,
      m_entityIDMap = [1 \<mapsto> Some 0],
      m_componentFactory =
        (\<lambda>k. if k = Actor then [freshComponent\<lparr>c_initialized := True, c_movingBackward := True\<rparr>]
             else if k = Physics then [freshComponent\<lparr>c_initialized := True, c_rigidActor := Some 0\<rparr>]
             else if k = Scene then [freshComponent\<lparr>c_initialized := True\<rparr>, unusedComponent]
             else [unusedComponent]),
      m_systemManager = [PhysicsSystem [(1, Some 0)]],
      m_player = None,
      m_hasPlayer = False,
      m_mainCameraC = None,
      m_viewport = None\<rparr>"

text \<open>The ID map agrees with the live slots of the pool: an identity is mapped to a
  handle exactly when the handle is a live slot that carries the identity.\<close>

definition idMapAgrees :: "World \<Rightarrow> bool" where
  "idMapAgrees w \<longleftrightarrow>
     (\<forall>ident e. m_entityIDMap w ident = Some e \<longleftrightarrow>
        (\<exists>i. e = Some i \<and> i < m_poolSize (m_entityPool w)
           \<and> m_alive (m_pool (m_entityPool w) ! i)
           \<and> m_id (m_pool (m_entityPool w) ! i) = ident))"

text \<open>A lookup by identity resolves to live slots only: never to a slot that is free or
  on its way back to the pool.\<close>

definition lookupsLive :: "World \<Rightarrow> bool" where
  "lookupsLive w \<longleftrightarrow>
     (\<forall>ident i. World_getEntityPtr ident w = Some i \<longrightarrow>
        i < m_poolSize (m_entityPool w)
        \<and> m_alive (m_pool (m_entityPool w) ! i)
        \<and> m_id (m_pool (m_entityPool w) ! i) = ident)"

text \<open>Identities come from the counter, and the identity of a live slot is the identity
  of no other slot.\<close>

definition identitiesUnique :: "EntityPool \<Rightarrow> bool" where
  "identitiesUnique pl \<longleftrightarrow>
     (\<forall>i. i < m_poolSize pl \<longrightarrow> m_id (m_pool pl ! i) < m_nextID pl) \<and>
     (\<forall>i j. i < m_poolSize pl \<and> j < m_poolSize pl \<and> m_alive (m_pool pl ! j) \<and> i \<noteq> j
        \<longrightarrow> m_id (m_pool pl ! i) \<noteq> m_id (m_pool pl ! j))"

definition wellFormed :: "World \<Rightarrow> bool" where
  "wellFormed w \<longleftrightarrow> idMapAgrees w \<and> identitiesUnique (m_entityPool w)"

text \<open>The example with a pool of one slot, which is live: no slot is free.\<close>

definition exhaustedWorld :: World where
  "exhaustedWorld =
     exampleWorld\<lparr>m_entityPool :=
       \<lparr>m_pool = [\<lparr>m_id = 1, m_alive = True, m_components = (\<lambda>k. None)\<rparr>], m_nextID = 2\<rparr>\<rparr>"

text \<open>The World as the constructor and \<^verbatim>\<open>injectDependencies\<close> leave it: no network
  pointer, no physics, the injected server and client; the pool and the factory are
  allocated by \<^verbatim>\<open>init\<close> only and are empty here.\<close>

definition World_new :: "Server \<Rightarrow> Client \<Rightarrow> World" where
  "World_new server client =
     \<lparr>m_PScene = Map.empty,
      m_usePhysics = False,
      m_network = nullptr,
      m_server = server,
      m_client = client,
      m_entityPool = EntityPool_new 0,
      m_entityIDMap = Map.empty,
      m_componentFactory = ComponentFactory_new 0,
      m_systemManager = [],
      m_player = None,
      m_hasPlayer = False,
      m_mainCameraC = None,
      m_viewport = None\<rparr>"

definition idleServer :: Server where
  "idleServer = \<lparr>m_initialized = False, m_players = []\<rparr>"

definition idleClient :: Client where
  "idleClient = \<lparr>c_connected = False\<rparr>"

subsection \<open>The iterations of the loop over the pool\<close>

text \<open>The first \<open>n\<close> iterations of the loop over the pool, and as many iterations as the
  pool has slots on entry.\<close>

definition update_entities_upto :: "Collaborators \<Rightarrow> nat \<Rightarrow> run \<Rightarrow> run" where
  "update_entities_upto cb n r = foldl (update_entity cb) r [0..<n]"

definition update_entities :: "Collaborators \<Rightarrow> run \<Rightarrow> run" where
  "update_entities cb r = update_entities_upto cb (m_poolSize (m_entityPool (fst r))) r"

text \<open>No update of an entity changes the size of the pool: the capacity of the pool is
  fixed at construction.\<close>

definition keepsPoolSize :: "Collaborators \<Rightarrow> bool" where
  "keepsPoolSize cb \<longleftrightarrow>
     (\<forall>i w. m_poolSize (m_entityPool (Entity_update cb i w)) = m_poolSize (m_entityPool w))"

subsection \<open>What one iteration of the physics system writes\<close>

text \<open>The scene component \<open>sc\<close> with the position and the orientation of the pose \<open>t\<close>
  stored in it.\<close>

definition writePose :: "nat \<Rightarrow> PxTransform \<Rightarrow> World \<Rightarrow> World" where
  "writePose sc t w =
     w\<lparr>m_componentFactory := (m_componentFactory w)(Scene :=
          (m_componentFactory w Scene)[sc := (m_componentFactory w Scene ! sc)
             \<lparr>c_position := (vx (p t), vy (p t), vz (p t)),
              c_orientation := (qw (q t), qx (q t), qy (q t), qz (q t))\<rparr>])\<rparr>"

text \<open>The tracked element \<open>x\<close> is a slot of the pool with a physics component whose rigid
  actor the engine reports at pose \<open>t\<close>, and with the scene component \<open>sc\<close>.\<close>

definition bodyWrites :: "World \<Rightarrow> EntityID \<times> EntityPtr \<Rightarrow> nat \<Rightarrow> PxTransform \<Rightarrow> bool" where
  "bodyWrites w x sc t \<longleftrightarrow>
     (\<exists>i pc a. snd x = Some i \<and> i < m_poolSize (m_entityPool w)
        \<and> m_components (m_pool (m_entityPool w) ! i) Physics = Some pc
        \<and> pc < length (m_componentFactory w Physics)
        \<and> c_rigidActor (m_componentFactory w Physics ! pc) = Some a
        \<and> m_PScene w a = Some t
        \<and> m_components (m_pool (m_entityPool w) ! i) Scene = Some sc
        \<and> sc < length (m_componentFactory w Scene))"

text \<open>The scene component \<open>sc\<close> carries exactly the position and the orientation of \<open>t\<close>.\<close>

definition posed :: "World \<Rightarrow> nat \<Rightarrow> PxTransform \<Rightarrow> bool" where
  "posed w sc t \<longleftrightarrow>
     c_position (m_componentFactory w Scene ! sc) = (vx (p t), vy (p t), vz (p t))
     \<and> c_orientation (m_componentFactory w Scene ! sc) = (qw (q t), qx (q t), qy (q t), qz (q t))"

text \<open>The world with the liveness flag of slot \<open>j\<close> set to \<open>b\<close>.\<close>

definition setAlive :: "nat \<Rightarrow> bool \<Rightarrow> World \<Rightarrow> World" where
  "setAlive j b w =
     w\<lparr>m_entityPool := (m_entityPool w)\<lparr>m_pool :=
          (m_pool (m_entityPool w))[j := (m_pool (m_entityPool w) ! j)\<lparr>m_alive := b\<rparr>]\<rparr>\<rparr>"

subsection \<open>Example collaborators and worlds\<close>

text \<open>Collaborators that do nothing, and the same with a physics engine that moves the
  rigid actor 0 to another pose.\<close>

definition idleCollaborators :: Collaborators where
  "idleCollaborators =
     \<lparr>Server_update = (\<lambda>w. w), Client_update = (\<lambda>w. w), System_update = (\<lambda>n w. w),
      Entity_update = (\<lambda>i w. w), PScene_simulate = (\<lambda>s. s), Environment_update = (\<lambda>w. w),
      Environment_destroy = (\<lambda>w. w), Environment_pause = (\<lambda>w. w),
      Environment_resume = (\<lambda>w. w), Entity_destroy = (\<lambda>i w. w),
      Entity_setupComponents = (\<lambda>i w. (True, w)), SystemManager_addEntity = (\<lambda>e w. w),
      PScene_destroy = (\<lambda>s. s), Input_handle = (\<lambda>e. e)\<rparr>"

definition movedPose :: PxTransform where
  "movedPose = \<lparr>q = \<lparr>qx = 0, qy = 1, qz = 0, qw = 0\<rparr>, p = \<lparr>vx = 4, vy = 5, vz = 6\<rparr>\<rparr>"

definition steppingCollaborators :: Collaborators where
  "steppingCollaborators = idleCollaborators\<lparr>PScene_simulate := (\<lambda>s. s(0 \<mapsto> movedPose))\<rparr>"

text \<open>Collaborators in which the update of the entity in slot 0 destroys the entity in
  slot 1 through \<^verbatim>\<open>World::destroyEntity\<close>.\<close>

definition destroyingCollaborators :: Collaborators where
  "destroyingCollaborators =
     idleCollaborators\<lparr>Entity_update :=
       (\<lambda>i w. if i = 0
              then (case World_destroyEntity (Some 1) w of Inl f \<Rightarrow> w | Inr w' \<Rightarrow> w')
              else w)\<rparr>"

text \<open>The pose of the rigid actor 0 in the example.\<close>

definition restPose :: PxTransform where
  "restPose = \<lparr>q = \<lparr>qx = 0, qy = 0, qz = 0, qw = 1\<rparr>, p = \<lparr>vx = 1, vy = 2, vz = 3\<rparr>\<rparr>"

text \<open>The example after \<^verbatim>\<open>createEntity\<close>: both slots are live.\<close>

definition twoEntityWorld :: World where
  "twoEntityWorld =
     exampleWorld\<lparr>m_entityPool :=
         \<lparr>m_pool = (m_pool (m_entityPool exampleWorld))[1 :=
              \<lparr>m_id = 2, m_alive = True, m_components = (\<lambda>k. None)\<rparr>],
          m_nextID = 3\<rparr>,
       m_entityIDMap := (m_entityIDMap exampleWorld)(2 \<mapsto> Some 1)\<rparr>"

text \<open>The example after \<^verbatim>\<open>destroyEntity\<close> of the entity in slot 0, which the physics
  system still tracks.\<close>

definition destroyedWorld :: World where
  "destroyedWorld =
     exampleWorld\<lparr>m_entityIDMap := Map.empty,
       m_entityPool :=
         \<lparr>m_pool = [\<lparr>m_id = 1, m_alive = False, m_components = (\<lambda>k. None)\<rparr>, freeEntity],
          m_nextID = 2\<rparr>\<rparr>"

text \<open>The example with two other systems registered around the physics system.\<close>

definition busyWorld :: World where
  "busyWorld =
     exampleWorld\<lparr>m_systemManager := [OtherSystem 7, PhysicsSystem [(1, Some 0)], OtherSystem 8]\<rparr>"

text \<open>The example after one frame with the moving physics engine.\<close>

definition steppedWorld :: World where
  "steppedWorld =
     (writePose 0 restPose exampleWorld)\<lparr>m_PScene := (m_PScene exampleWorld)(0 \<mapsto> movedPose)\<rparr>"

subsection \<open>Attached components\<close>

text \<open>Every component that an entity of the pool holds is an allocated, initialised
  component of the pool of its kind.\<close>

definition attachedReady :: "World \<Rightarrow> bool" where
  "attachedReady w \<longleftrightarrow>
     (\<forall>i k j. i < m_poolSize (m_entityPool w)
          \<and> m_components (m_pool (m_entityPool w) ! i) k = Some j
        \<longrightarrow> j < length (m_componentFactory w k)
          \<and> c_inUse (m_componentFactory w k ! j)
          \<and> c_initialized (m_componentFactory w k ! j))"






section \<open>Properties\<close>

subsection \<open>The entity pool and the ID map\<close>

lemma firstFree_Some: "firstFree es = Some i \<Longrightarrow> i < length es \<and> \<not> m_alive (es ! i)"
  by (induction es arbitrary: i) (auto split: if_splits option.splits)

lemma firstFree_None: "firstFree es = None \<longleftrightarrow> (\<forall>e \<in> set es. m_alive e)"
  by (induction es) (auto split: option.splits)

lemma createEntity_states_Some:
  assumes "firstFree (m_pool (m_entityPool w)) = Some i"
  shows "World_createEntity_states w =
      Inr (Some i,
        [w\<lparr>m_entityPool := (m_entityPool w)\<lparr>m_pool := (m_pool (m_entityPool w))[i :=
                \<lparr>m_id = m_nextID (m_entityPool w), m_alive = True, m_components = (\<lambda>k. None)\<rparr>],
              m_nextID := Suc (m_nextID (m_entityPool w))\<rparr>\<rparr>,
         w\<lparr>m_entityPool := (m_entityPool w)\<lparr>m_pool := (m_pool (m_entityPool w))[i :=
                \<lparr>m_id = m_nextID (m_entityPool w), m_alive = True, m_components = (\<lambda>k. None)\<rparr>],
              m_nextID := Suc (m_nextID (m_entityPool w))\<rparr>,
           m_entityIDMap := (m_entityIDMap w)(m_nextID (m_entityPool w) \<mapsto> Some i)\<rparr>])"
  using assms firstFree_Some [OF assms]
  by (simp add: World_createEntity_states_def EntityPool_create_def deref_def andThen_def
      m_poolSize_def Let_def)

lemma createEntity_states_None:
  assumes "firstFree (m_pool (m_entityPool w)) = None"
  shows "World_createEntity_states w = Inl NullDereference"
  using assms
  by (simp add: World_createEntity_states_def EntityPool_create_def deref_def andThen_def)

lemma createEntity_Some:
  assumes "firstFree (m_pool (m_entityPool w)) = Some i"
  shows "World_createEntity w =
      Inr (Some i, w\<lparr>m_entityPool := (m_entityPool w)\<lparr>m_pool := (m_pool (m_entityPool w))[i :=
                \<lparr>m_id = m_nextID (m_entityPool w), m_alive = True, m_components = (\<lambda>k. None)\<rparr>],
              m_nextID := Suc (m_nextID (m_entityPool w))\<rparr>,
           m_entityIDMap := (m_entityIDMap w)(m_nextID (m_entityPool w) \<mapsto> Some i)\<rparr>)"
  by (simp add: World_createEntity_def createEntity_states_Some [OF assms] andThen_def)

lemma createEntity_None:
  assumes "firstFree (m_pool (m_entityPool w)) = None"
  shows "World_createEntity w = Inl NullDereference"
  by (simp add: World_createEntity_def createEntity_states_None [OF assms] andThen_def)

lemma createEntity_wellFormed:
  assumes wf: "wellFormed w" and cr: "World_createEntity w = Inr (e, w')"
  shows "wellFormed w'"
proof -
  obtain i where ff: "firstFree (m_pool (m_entityPool w)) = Some i"
    using cr createEntity_None [of w] by (cases "firstFree (m_pool (m_entityPool w))") auto
  note fr = firstFree_Some [OF ff]
  have w': "w' = w\<lparr>m_entityPool := (m_entityPool w)\<lparr>m_pool := (m_pool (m_entityPool w))[i :=
                \<lparr>m_id = m_nextID (m_entityPool w), m_alive = True, m_components = (\<lambda>k. None)\<rparr>],
              m_nextID := Suc (m_nextID (m_entityPool w))\<rparr>,
           m_entityIDMap := (m_entityIDMap w)(m_nextID (m_entityPool w) \<mapsto> Some i)\<rparr>"
    using cr createEntity_Some [OF ff] by auto
  have uq: "identitiesUnique (m_entityPool w)" and ag: "idMapAgrees w"
    using wf by (simp_all add: wellFormed_def)
  have lt: "\<And>j. j < length (m_pool (m_entityPool w)) \<Longrightarrow>
      m_id (m_pool (m_entityPool w) ! j) < m_nextID (m_entityPool w)"
    using uq by (simp add: identitiesUnique_def m_poolSize_def)
  have fresh: "\<And>j. m_id (m_pool (m_entityPool w) ! j) = m_nextID (m_entityPool w) \<Longrightarrow>
      j < length (m_pool (m_entityPool w)) \<Longrightarrow> False"
    using lt by fastforce
  have uq': "identitiesUnique (m_entityPool w')"
    unfolding identitiesUnique_def w' m_poolSize_def
    using uq fr lt
    by (auto simp: identitiesUnique_def m_poolSize_def nth_list_update less_Suc_eq
        dest: lt)
  have ag': "idMapAgrees w'"
    unfolding idMapAgrees_def
  proof (intro allI)
    fix ident e
    show "m_entityIDMap w' ident = Some e \<longleftrightarrow>
        (\<exists>j. e = Some j \<and> j < m_poolSize (m_entityPool w')
           \<and> m_alive (m_pool (m_entityPool w') ! j)
           \<and> m_id (m_pool (m_entityPool w') ! j) = ident)"
    proof (cases "ident = m_nextID (m_entityPool w)")
      case True
      then show ?thesis
        using fr by (auto simp: w' m_poolSize_def nth_list_update dest: fresh)
    next
      case False
      have old: "m_entityIDMap w ident = Some e \<longleftrightarrow>
        (\<exists>j. e = Some j \<and> j < m_poolSize (m_entityPool w)
           \<and> m_alive (m_pool (m_entityPool w) ! j)
           \<and> m_id (m_pool (m_entityPool w) ! j) = ident)"
        using ag by (simp add: idMapAgrees_def)
      show ?thesis
        using False fr old by (auto simp: w' m_poolSize_def nth_list_update)
    qed
  qed
  show ?thesis using uq' ag' by (simp add: wellFormed_def)
qed


lemma destroyEntity_states_Inr:
  "World_destroyEntity_states e w = Inr ws \<longleftrightarrow>
     (\<exists>i. e = Some i \<and> i < m_poolSize (m_entityPool w)
        \<and> ws = [w\<lparr>m_entityIDMap := (m_entityIDMap w)(m_id (m_pool (m_entityPool w) ! i) := None)\<rparr>,
                 w\<lparr>m_entityIDMap := (m_entityIDMap w)(m_id (m_pool (m_entityPool w) ! i) := None),
                   m_entityPool := EntityPool_destroy (Some i) (m_entityPool w)\<rparr>])"
  by (cases e) (auto simp: World_destroyEntity_states_def deref_def andThen_def Let_def)

lemma destroyEntity_Inr:
  "World_destroyEntity e w = Inr w' \<longleftrightarrow>
     (\<exists>i. e = Some i \<and> i < m_poolSize (m_entityPool w)
        \<and> w' = w\<lparr>m_entityIDMap := (m_entityIDMap w)(m_id (m_pool (m_entityPool w) ! i) := None),
                   m_entityPool := EntityPool_destroy (Some i) (m_entityPool w)\<rparr>)"
proof (cases "World_destroyEntity_states e w")
  case (Inl f)
  then have "\<not> (\<exists>i. e = Some i \<and> i < m_poolSize (m_entityPool w))"
    using destroyEntity_states_Inr [of e w] by auto
  with Inl show ?thesis by (auto simp: World_destroyEntity_def andThen_def)
next
  case (Inr ws)
  then show ?thesis
    using destroyEntity_states_Inr [of e w ws]
    by (auto simp: World_destroyEntity_def andThen_def)
qed

lemma erased_not_resolved:
  assumes ag: "idMapAgrees w" and i: "i < m_poolSize (m_entityPool w)"
    and m: "m_entityIDMap w1 = (m_entityIDMap w)(m_id (m_pool (m_entityPool w) ! i) := None)"
  shows "World_getEntityPtr ident w1 \<noteq> Some i"
proof
  assume "World_getEntityPtr ident w1 = Some i"
  then have m1: "m_entityIDMap w1 ident = Some (Some i)"
    by (auto simp: World_getEntityPtr_def split: if_splits)
  then have ne: "ident \<noteq> m_id (m_pool (m_entityPool w) ! i)"
    and mw: "m_entityIDMap w ident = Some (Some i)"
    by (auto simp: m split: if_splits)
  from mw ag have "m_id (m_pool (m_entityPool w) ! i) = ident"
    by (auto simp: idMapAgrees_def)
  with ne show False by simp
qed

lemma EntityPool_destroy_length:
  "length (m_pool (EntityPool_destroy e pl)) = length (m_pool pl)"
  by (cases e) (simp_all add: EntityPool_destroy_def)

lemma EntityPool_destroy_nextID:
  "m_nextID (EntityPool_destroy e pl) = m_nextID pl"
  by (cases e) (simp_all add: EntityPool_destroy_def)

lemma EntityPool_destroy_id:
  "j < length (m_pool pl) \<Longrightarrow>
   m_id (m_pool (EntityPool_destroy e pl) ! j) = m_id (m_pool pl ! j)"
  by (cases e) (auto simp: EntityPool_destroy_def nth_list_update m_poolSize_def)

lemma EntityPool_destroy_alive:
  "j < length (m_pool pl) \<Longrightarrow> i < length (m_pool pl) \<Longrightarrow>
   m_alive (m_pool (EntityPool_destroy (Some i) pl) ! j) \<longleftrightarrow>
     m_alive (m_pool pl ! j) \<and> j \<noteq> i"
  by (auto simp: EntityPool_destroy_def nth_list_update m_poolSize_def)

lemma getEntityPtr_frame:
  "m_entityIDMap w' = m_entityIDMap w \<Longrightarrow> World_getEntityPtr ident w' = World_getEntityPtr ident w"
  by (simp add: World_getEntityPtr_def)

lemma destroyEntity_wellFormed:
  assumes wf: "wellFormed w" and de: "World_destroyEntity e w = Inr w'"
  shows "wellFormed w'"
proof -
  obtain i where e: "e = Some i" and i: "i < length (m_pool (m_entityPool w))"
    and w': "w' = w\<lparr>m_entityIDMap := (m_entityIDMap w)(m_id (m_pool (m_entityPool w) ! i) := None),
                   m_entityPool := EntityPool_destroy (Some i) (m_entityPool w)\<rparr>"
    using de by (auto simp: destroyEntity_Inr m_poolSize_def)
  define P where "P = m_pool (m_entityPool w)"
  define P' where "P' = m_pool (m_entityPool w')"
  have pool': "m_entityPool w' = EntityPool_destroy (Some i) (m_entityPool w)"
    by (simp add: w')
  have len: "length P' = length P"
    by (simp add: P_def P'_def pool' EntityPool_destroy_length)
  have nxt: "m_nextID (m_entityPool w') = m_nextID (m_entityPool w)"
    by (simp add: pool' EntityPool_destroy_nextID)
  have ids: "\<And>j. j < length P \<Longrightarrow> m_id (P' ! j) = m_id (P ! j)"
    by (simp add: P_def P'_def pool' EntityPool_destroy_id)
  have alv: "\<And>j. j < length P \<Longrightarrow> m_alive (P' ! j) \<longleftrightarrow> m_alive (P ! j) \<and> j \<noteq> i"
    using i by (simp add: P_def P'_def pool' EntityPool_destroy_alive)
  have map': "m_entityIDMap w' = (m_entityIDMap w)(m_id (P ! i) := None)"
    by (simp add: w' P_def)
  have uq: "identitiesUnique (m_entityPool w)" and ag: "idMapAgrees w"
    using wf by (simp_all add: wellFormed_def)
  have lt: "\<And>j. j < length P \<Longrightarrow> m_id (P ! j) < m_nextID (m_entityPool w)"
    using uq by (simp add: identitiesUnique_def m_poolSize_def P_def)
  have dist: "\<And>a b. a < length P \<Longrightarrow> b < length P \<Longrightarrow> m_alive (P ! b) \<Longrightarrow> a \<noteq> b
      \<Longrightarrow> m_id (P ! a) \<noteq> m_id (P ! b)"
    using uq by (simp add: identitiesUnique_def m_poolSize_def P_def)
  have old: "\<And>ident x. m_entityIDMap w ident = Some x \<longleftrightarrow>
        (\<exists>j. x = Some j \<and> j < length P \<and> m_alive (P ! j) \<and> m_id (P ! j) = ident)"
    using ag by (simp add: idMapAgrees_def m_poolSize_def P_def)
  have uq': "identitiesUnique (m_entityPool w')"
    unfolding identitiesUnique_def m_poolSize_def P'_def [symmetric] nxt len
  proof (intro conjI allI impI)
    fix j assume "j < length P"
    then show "m_id (P' ! j) < m_nextID (m_entityPool w)"
      using ids lt by simp
  next
    fix a b assume h: "a < length P \<and> b < length P \<and> m_alive (P' ! b) \<and> a \<noteq> b"
    then have "m_alive (P ! b)" using alv [of b] by blast
    then show "m_id (P' ! a) \<noteq> m_id (P' ! b)"
      using h ids dist by simp
  qed
  have ag': "idMapAgrees w'"
    unfolding idMapAgrees_def m_poolSize_def P'_def [symmetric] len
  proof (intro allI)
    fix ident x
    show "m_entityIDMap w' ident = Some x \<longleftrightarrow>
        (\<exists>j. x = Some j \<and> j < length P \<and> m_alive (P' ! j) \<and> m_id (P' ! j) = ident)"
    proof (cases "ident = m_id (P ! i)")
      case True
      have "\<not> (\<exists>j. x = Some j \<and> j < length P \<and> m_alive (P' ! j) \<and> m_id (P' ! j) = ident)"
      proof
        assume "\<exists>j. x = Some j \<and> j < length P \<and> m_alive (P' ! j) \<and> m_id (P' ! j) = ident"
        then obtain j where j: "j < length P" "m_alive (P' ! j)" "m_id (P' ! j) = ident"
          by blast
        then have "m_alive (P ! j)" "j \<noteq> i" "m_id (P ! j) = m_id (P ! i)"
          using alv ids True by simp_all
        then show False
          using dist [of i j] i j(1) by (simp add: P_def)
      qed
      then show ?thesis
        using True by (simp add: map')
    next
      case False
      have "(\<exists>j. x = Some j \<and> j < length P \<and> m_alive (P' ! j) \<and> m_id (P' ! j) = ident)
          \<longleftrightarrow> (\<exists>j. x = Some j \<and> j < length P \<and> m_alive (P ! j) \<and> m_id (P ! j) = ident)"
        using False alv ids by auto
      then show ?thesis
        using False old [of ident x] by (simp add: map')
    qed
  qed
  show ?thesis using uq' ag' by (simp add: wellFormed_def)
qed

lemma exampleWorld_wellFormed: "wellFormed exampleWorld"
proof -
  have "idMapAgrees exampleWorld"
    by (auto simp: idMapAgrees_def exampleWorld_def m_poolSize_def freeEntity_def nth_Cons'
        split: if_splits)
  moreover have "identitiesUnique (m_entityPool exampleWorld)"
    by (auto simp: identitiesUnique_def exampleWorld_def m_poolSize_def freeEntity_def
        nth_Cons' less_Suc_eq)
  ultimately show ?thesis by (simp add: wellFormed_def)
qed

lemma exampleWorld_firstFree: "firstFree (m_pool (m_entityPool exampleWorld)) = Some 1"
  by (simp add: exampleWorld_def freeEntity_def)

lemma exhaustedWorld_firstFree: "firstFree (m_pool (m_entityPool exhaustedWorld)) = None"
  by (simp add: exhaustedWorld_def)

lemma getEntityPtr_Some:
  "World_getEntityPtr ident w = Some i \<longleftrightarrow> m_entityIDMap w ident = Some (Some i)"
  by (cases "m_entityIDMap w ident") (simp_all add: World_getEntityPtr_def)

lemma idMapAgrees_lookupsLive:
  assumes "idMapAgrees w"
  shows "lookupsLive w"
  unfolding lookupsLive_def getEntityPtr_Some
proof (intro allI impI)
  fix ident i
  assume "m_entityIDMap w ident = Some (Some i)"
  then have "\<exists>j. Some i = Some j \<and> j < m_poolSize (m_entityPool w)
           \<and> m_alive (m_pool (m_entityPool w) ! j)
           \<and> m_id (m_pool (m_entityPool w) ! j) = ident"
    using assms unfolding idMapAgrees_def by blast
  then show "i < m_poolSize (m_entityPool w) \<and> m_alive (m_pool (m_entityPool w) ! i)
      \<and> m_id (m_pool (m_entityPool w) ! i) = ident"
    by simp
qed

lemma createEntity_pool_lookupsLive:
  assumes ag: "idMapAgrees w" and i: "i < length (m_pool (m_entityPool w))"
    and free: "\<not> m_alive (m_pool (m_entityPool w) ! i)"
    and m: "m_entityIDMap w1 = m_entityIDMap w"
    and p: "m_pool (m_entityPool w1) = (m_pool (m_entityPool w))[i := x]"
  shows "lookupsLive w1"
  unfolding lookupsLive_def
proof (intro allI impI)
  fix ident j
  assume "World_getEntityPtr ident w1 = Some j"
  then have "m_entityIDMap w ident = Some (Some j)"
    by (simp add: getEntityPtr_Some m)
  then have "World_getEntityPtr ident w = Some j"
    by (simp add: getEntityPtr_Some)
  then have j: "j < length (m_pool (m_entityPool w))" "m_alive (m_pool (m_entityPool w) ! j)"
      "m_id (m_pool (m_entityPool w) ! j) = ident"
    using idMapAgrees_lookupsLive [OF ag] unfolding lookupsLive_def m_poolSize_def by blast+
  then have "j \<noteq> i" using free by auto
  then show "j < m_poolSize (m_entityPool w1) \<and> m_alive (m_pool (m_entityPool w1) ! j)
      \<and> m_id (m_pool (m_entityPool w1) ! j) = ident"
    using j by (simp add: m_poolSize_def p)
qed

lemma erased_lookupsLive:
  assumes ag: "idMapAgrees w"
    and m: "m_entityIDMap w1 = (m_entityIDMap w)(x := None)"
    and p: "m_entityPool w1 = m_entityPool w"
  shows "lookupsLive w1"
  unfolding lookupsLive_def
proof (intro allI impI)
  fix ident j
  assume "World_getEntityPtr ident w1 = Some j"
  then have "m_entityIDMap w ident = Some (Some j)"
    by (simp add: getEntityPtr_Some m split: if_splits)
  then have "World_getEntityPtr ident w = Some j"
    by (simp add: getEntityPtr_Some)
  then show "j < m_poolSize (m_entityPool w1) \<and> m_alive (m_pool (m_entityPool w1) ! j)
      \<and> m_id (m_pool (m_entityPool w1) ! j) = ident"
    using idMapAgrees_lookupsLive [OF ag] unfolding lookupsLive_def p by blast
qed

subsection \<open>The ID map across init\<close>

lemma World_init_pool: "m_entityPool (World_init n usePhysics w) = EntityPool_new 256"
  by (simp add: World_init_def Let_def)

lemma World_init_map:
  "m_entityIDMap (World_init n usePhysics w) = m_entityIDMap w"
  by (simp add: World_init_def World_initPhysics_def Let_def)

lemma World_init_stale:
  assumes "m_entityIDMap w ident = Some (Some i)"
  shows "World_getEntityPtr ident (World_init n usePhysics w) = Some i"
    and "\<not> (i < m_poolSize (m_entityPool (World_init n usePhysics w))
            \<and> m_alive (m_pool (m_entityPool (World_init n usePhysics w)) ! i))"
    and "\<not> lookupsLive (World_init n usePhysics w)"
proof -
  show a: "World_getEntityPtr ident (World_init n usePhysics w) = Some i"
    using assms by (simp add: getEntityPtr_Some World_init_map)
  show b: "\<not> (i < m_poolSize (m_entityPool (World_init n usePhysics w))
            \<and> m_alive (m_pool (m_entityPool (World_init n usePhysics w)) ! i))"
    by (simp add: World_init_pool EntityPool_new_def m_poolSize_def freeEntity_def)
  show "\<not> lookupsLive (World_init n usePhysics w)"
    unfolding lookupsLive_def using a b by blast
qed

lemma World_init_new_wellFormed:
  "wellFormed (World_init n usePhysics (World_new server client))"
proof -
  let ?w = "World_init n usePhysics (World_new server client)"
  have m: "m_entityIDMap ?w = Map.empty"
    by (simp add: World_init_map World_new_def)
  have dead: "\<And>i. i < m_poolSize (m_entityPool ?w) \<Longrightarrow> \<not> m_alive (m_pool (m_entityPool ?w) ! i)"
    by (simp add: World_init_pool EntityPool_new_def m_poolSize_def freeEntity_def)
  have ids: "\<And>i. i < m_poolSize (m_entityPool ?w) \<Longrightarrow>
      m_id (m_pool (m_entityPool ?w) ! i) < m_nextID (m_entityPool ?w)"
    by (simp add: World_init_pool EntityPool_new_def m_poolSize_def freeEntity_def)
  have "idMapAgrees ?w"
    unfolding idMapAgrees_def m using dead by auto
  moreover have "identitiesUnique (m_entityPool ?w)"
    unfolding identitiesUnique_def using dead ids by blast
  ultimately show ?thesis by (simp add: wellFormed_def)
qed

subsection \<open>The loop of the physics system\<close>

lemma body_Inr:
  "PhysicsSystem_update_body x w = Inr w' \<longleftrightarrow>
     (\<exists>sc t. bodyWrites w x sc t \<and> w' = writePose sc t w)"
  unfolding PhysicsSystem_update_body_def Entity_getComponent_def getGlobalPose_def
    SceneComponent_setPosition_def SceneComponent_setOrientation_def writeComponent_def
    derefC_def deref_def andThen_def writePose_def bodyWrites_def
  by (auto split: option.splits sum.splits if_splits)

lemma bodyWrites_fun:
  "bodyWrites w x sc t \<Longrightarrow> bodyWrites w x sc' t' \<Longrightarrow> sc' = sc \<and> t' = t"
  by (auto simp: bodyWrites_def)

lemma bodyWrites_writePose [simp]:
  "bodyWrites (writePose sc0 t0 w) x sc t = bodyWrites w x sc t"
  by (auto simp: bodyWrites_def writePose_def)

lemma writePose_frame [simp]:
  "m_entityPool (writePose sc t w) = m_entityPool w"
  "m_PScene (writePose sc t w) = m_PScene w"
  "m_systemManager (writePose sc t w) = m_systemManager w"
  "m_entityIDMap (writePose sc t w) = m_entityIDMap w"
  "m_network (writePose sc t w) = m_network w"
  "m_usePhysics (writePose sc t w) = m_usePhysics w"
  "k \<noteq> Scene \<Longrightarrow> m_componentFactory (writePose sc t w) k = m_componentFactory w k"
  "length (m_componentFactory (writePose sc t w) Scene) = length (m_componentFactory w Scene)"
  by (simp_all add: writePose_def)

lemma writePose_posed:
  "sc < length (m_componentFactory w Scene) \<Longrightarrow> posed (writePose sc t w) sc t"
  by (simp add: posed_def writePose_def)

lemma writePose_other:
  "sc' \<noteq> sc \<Longrightarrow>
   m_componentFactory (writePose sc t w) Scene ! sc' = m_componentFactory w Scene ! sc'"
  by (simp add: writePose_def)

lemma PhysicsSystem_update_Cons:
  "PhysicsSystem_update (x # rest) w = Inr w' \<longleftrightarrow>
     (\<exists>sc t. bodyWrites w x sc t \<and> PhysicsSystem_update rest (writePose sc t w) = Inr w')"
proof (cases "PhysicsSystem_update_body x w")
  case (Inl f)
  then have "\<not> (\<exists>sc t. bodyWrites w x sc t)"
    using body_Inr [of x w] by auto
  with Inl show ?thesis by (simp add: andThen_def)
next
  case (Inr w1)
  then obtain sc t where wr: "bodyWrites w x sc t" and w1: "w1 = writePose sc t w"
    using body_Inr [of x w w1] by auto
  have step: "PhysicsSystem_update (x # rest) w = PhysicsSystem_update rest (writePose sc t w)"
    using Inr w1 by (simp add: andThen_def)
  have uniq: "\<And>sc' t'. bodyWrites w x sc' t' \<Longrightarrow> sc' = sc \<and> t' = t"
    using bodyWrites_fun [OF wr] by blast
  show ?thesis
    unfolding step using wr uniq by blast
qed

lemma PhysicsSystem_update_frame:
  "PhysicsSystem_update ents w = Inr w' \<Longrightarrow>
     m_entityPool w' = m_entityPool w \<and> m_PScene w' = m_PScene w
     \<and> m_systemManager w' = m_systemManager w \<and> m_entityIDMap w' = m_entityIDMap w
     \<and> m_network w' = m_network w \<and> m_usePhysics w' = m_usePhysics w
     \<and> (\<forall>k. k \<noteq> Scene \<longrightarrow> m_componentFactory w' k = m_componentFactory w k)
     \<and> length (m_componentFactory w' Scene) = length (m_componentFactory w Scene)"
proof (induction ents arbitrary: w)
  case Nil
  then show ?case by simp
next
  case (Cons x rest)
  from Cons.prems obtain sc t where
    "PhysicsSystem_update rest (writePose sc t w) = Inr w'"
    unfolding PhysicsSystem_update_Cons by blast
  from Cons.IH [OF this] show ?case by simp
qed

lemma PhysicsSystem_update_untouched:
  "PhysicsSystem_update ents w = Inr w' \<Longrightarrow> \<forall>x \<in> set ents. \<forall>t. \<not> bodyWrites w x sc t \<Longrightarrow>
     m_componentFactory w' Scene ! sc = m_componentFactory w Scene ! sc"
proof (induction ents arbitrary: w)
  case Nil
  then show ?case by simp
next
  case (Cons x rest)
  from Cons.prems(1) obtain sc0 t0 where wr: "bodyWrites w x sc0 t0"
    and rest: "PhysicsSystem_update rest (writePose sc0 t0 w) = Inr w'"
    unfolding PhysicsSystem_update_Cons by blast
  have ne: "sc \<noteq> sc0" using wr Cons.prems(2) by auto
  have "\<forall>x \<in> set rest. \<forall>t. \<not> bodyWrites (writePose sc0 t0 w) x sc t"
    using Cons.prems(2) by simp
  from Cons.IH [OF rest this] show ?case
    using ne by (simp add: writePose_other)
qed

lemma PhysicsSystem_update_posed:
  "PhysicsSystem_update ents w = Inr w' \<Longrightarrow> \<exists>x \<in> set ents. bodyWrites w x sc t \<Longrightarrow>
   \<forall>x \<in> set ents. \<forall>t'. bodyWrites w x sc t' \<longrightarrow> t' = t \<Longrightarrow> posed w' sc t"
proof (induction ents arbitrary: w)
  case Nil
  then show ?case by simp
next
  case (Cons x rest)
  from Cons.prems(1) obtain sc0 t0 where wr: "bodyWrites w x sc0 t0"
    and rest: "PhysicsSystem_update rest (writePose sc0 t0 w) = Inr w'"
    unfolding PhysicsSystem_update_Cons by blast
  let ?w1 = "writePose sc0 t0 w"
  have same: "\<forall>x \<in> set rest. \<forall>t'. bodyWrites ?w1 x sc t' \<longrightarrow> t' = t"
    using Cons.prems(3) by simp
  show ?case
  proof (cases "\<exists>y \<in> set rest. bodyWrites w y sc t")
    case True
    then have "\<exists>y \<in> set rest. bodyWrites ?w1 y sc t" by simp
    from Cons.IH [OF rest this same] show ?thesis .
  next
    case False
    then have here: "bodyWrites w x sc t" using Cons.prems(2) by auto
    then have eq: "sc0 = sc" "t0 = t" using bodyWrites_fun [OF here wr] by simp_all
    have none: "\<forall>y \<in> set rest. \<forall>t'. \<not> bodyWrites ?w1 y sc t'"
      using False Cons.prems(3) by auto
    have "sc < length (m_componentFactory w Scene)"
      using here by (auto simp: bodyWrites_def)
    then have "posed ?w1 sc t" unfolding eq by (rule writePose_posed)
    then show ?thesis
      using PhysicsSystem_update_untouched [OF rest none] by (simp add: posed_def)
  qed
qed

lemma PhysicsSystem_update_append:
  "PhysicsSystem_update (xs @ ys) w =
     andThen (PhysicsSystem_update xs w) (PhysicsSystem_update ys)"
proof (induction xs arbitrary: w)
  case Nil
  show ?case by (simp add: andThen_def)
next
  case (Cons x xs)
  show ?case
    by (cases "PhysicsSystem_update_body x w") (simp_all add: andThen_def Cons.IH)
qed

lemma bodyWrites_frame:
  assumes "m_entityPool w' = m_entityPool w" and "m_PScene w' = m_PScene w"
    and "m_componentFactory w' Physics = m_componentFactory w Physics"
    and "length (m_componentFactory w' Scene) = length (m_componentFactory w Scene)"
  shows "bodyWrites w' x sc t = bodyWrites w x sc t"
  by (simp add: bodyWrites_def assms)

lemma PhysicsSystem_update_bodyWrites:
  assumes "PhysicsSystem_update ents w = Inr w'"
  shows "bodyWrites w' x sc t = bodyWrites w x sc t"
  using PhysicsSystem_update_frame [OF assms] by (intro bodyWrites_frame) simp_all

lemma PhysicsSystem_update_returns:
  "(\<exists>w'. PhysicsSystem_update ents w = Inr w') \<longleftrightarrow>
     (\<forall>x \<in> set ents. \<exists>sc t. bodyWrites w x sc t)"
proof (induction ents arbitrary: w)
  case Nil
  show ?case by simp
next
  case (Cons x rest)
  show ?case
  proof
    assume "\<exists>w'. PhysicsSystem_update (x # rest) w = Inr w'"
    then obtain w' sc t where wr: "bodyWrites w x sc t"
      and r: "PhysicsSystem_update rest (writePose sc t w) = Inr w'"
      unfolding PhysicsSystem_update_Cons by blast
    from r have "\<forall>y \<in> set rest. \<exists>sc' t'. bodyWrites (writePose sc t w) y sc' t'"
      using Cons.IH [of "writePose sc t w"] by blast
    then show "\<forall>y \<in> set (x # rest). \<exists>sc t. bodyWrites w y sc t"
      using wr by auto
  next
    assume all: "\<forall>y \<in> set (x # rest). \<exists>sc t. bodyWrites w y sc t"
    then obtain sc t where wr: "bodyWrites w x sc t" by auto
    have "\<forall>y \<in> set rest. \<exists>sc' t'. bodyWrites (writePose sc t w) y sc' t'"
      using all by simp
    then obtain w' where "PhysicsSystem_update rest (writePose sc t w) = Inr w'"
      using Cons.IH [of "writePose sc t w"] by blast
    then show "\<exists>w'. PhysicsSystem_update (x # rest) w = Inr w'"
      unfolding PhysicsSystem_update_Cons using wr by blast
  qed
qed

lemma PhysicsSystem_update_writes:
  assumes up: "PhysicsSystem_update (xs @ x # ys) w = Inr w'"
    and wr: "bodyWrites w x sc t"
    and later: "\<forall>y \<in> set ys. \<forall>t'. bodyWrites w y sc t' \<longrightarrow> t' = t"
  shows "posed w' sc t"
proof -
  obtain wx where xs: "PhysicsSystem_update xs w = Inr wx"
    and rest: "PhysicsSystem_update (x # ys) wx = Inr w'"
    using up unfolding PhysicsSystem_update_append
    by (cases "PhysicsSystem_update xs w") (simp_all add: andThen_def)
  note same = PhysicsSystem_update_bodyWrites [OF xs]
  have ex: "\<exists>y \<in> set (x # ys). bodyWrites wx y sc t"
    using wr by (simp add: same)
  have only: "\<forall>y \<in> set (x # ys). \<forall>t'. bodyWrites wx y sc t' \<longrightarrow> t' = t"
    using later bodyWrites_fun [OF wr] by (auto simp: same)
  show ?thesis
    by (rule PhysicsSystem_update_posed [OF rest ex only])
qed

lemma getComponent_frame:
  "m_entityPool w' = m_entityPool w \<Longrightarrow> Entity_getComponent k e w' = Entity_getComponent k e w"
  by (simp add: Entity_getComponent_def)

lemma getGlobalPose_frame:
  "m_componentFactory w' Physics = m_componentFactory w Physics \<Longrightarrow> m_PScene w' = m_PScene w
   \<Longrightarrow> getGlobalPose c w' = getGlobalPose c w"
  by (cases c) (auto simp: getGlobalPose_def derefC_def andThen_def split: option.splits)

lemma body_null:
  assumes "snd x = None \<or> Entity_getComponent Physics (snd x) w = Inr None
      \<or> (Entity_getComponent Scene (snd x) w = Inr None
          \<and> (\<exists>pc t. Entity_getComponent Physics (snd x) w = Inr pc
                \<and> getGlobalPose pc w = Inr t))"
  shows "PhysicsSystem_update_body x w = Inl NullDereference"
proof -
  consider (null) "snd x = None"
    | (phys) i where "snd x = Some i" "Entity_getComponent Physics (snd x) w = Inr None"
    | (scene) pc t where "Entity_getComponent Scene (snd x) w = Inr None"
        "Entity_getComponent Physics (snd x) w = Inr pc" "getGlobalPose pc w = Inr t"
    using assms by (cases "snd x") auto
  then show ?thesis
  proof cases
    case null
    then show ?thesis
      by (simp add: PhysicsSystem_update_body_def Entity_getComponent_def deref_def andThen_def)
  next
    case phys
    then have "\<exists>r. Entity_getComponent Scene (snd x) w = Inr r"
      by (auto simp: Entity_getComponent_def deref_def andThen_def split: if_splits)
    then show ?thesis
      using phys
      by (auto simp: PhysicsSystem_update_body_def andThen_def getGlobalPose_def derefC_def)
  next
    case scene
    then show ?thesis
      by (simp add: PhysicsSystem_update_body_def andThen_def SceneComponent_setPosition_def
          writeComponent_def derefC_def)
  qed
qed

lemma PhysicsSystem_update_null:
  assumes before: "\<forall>y \<in> set xs. \<exists>sc t. bodyWrites w y sc t"
    and x: "snd x = None \<or> Entity_getComponent Physics (snd x) w = Inr None
      \<or> (Entity_getComponent Scene (snd x) w = Inr None
          \<and> (\<exists>pc t. Entity_getComponent Physics (snd x) w = Inr pc
                \<and> getGlobalPose pc w = Inr t))"
  shows "PhysicsSystem_update (xs @ x # ys) w = Inl NullDereference"
proof -
  obtain wx where xs: "PhysicsSystem_update xs w = Inr wx"
    using before PhysicsSystem_update_returns [of xs w] by blast
  note fr = PhysicsSystem_update_frame [OF xs]
  have pool: "m_entityPool wx = m_entityPool w" and sc: "m_PScene wx = m_PScene w"
    and ph: "m_componentFactory wx Physics = m_componentFactory w Physics"
    using fr by simp_all
  have "snd x = None \<or> Entity_getComponent Physics (snd x) wx = Inr None
      \<or> (Entity_getComponent Scene (snd x) wx = Inr None
          \<and> (\<exists>pc t. Entity_getComponent Physics (snd x) wx = Inr pc
                \<and> getGlobalPose pc wx = Inr t))"
    using x by (simp add: getComponent_frame [OF pool] getGlobalPose_frame [OF ph sc])
  then have "PhysicsSystem_update_body x wx = Inl NullDereference"
    by (rule body_null)
  then show ?thesis
    by (simp add: PhysicsSystem_update_append xs andThen_def)
qed

subsection \<open>Network functions\<close>

lemma initServer_guard:
  "Network_initialized w = Inr True \<Longrightarrow>
   World_initServer port username w =
     Inl (AssertFailed ''Trying to init Server with Network already initialized'')"
  by (simp add: World_initServer_def andThen_def Assert_def)

lemma initClient_guard:
  "Network_initialized w = Inr True \<Longrightarrow>
   World_initClient w =
     Inl (AssertFailed ''Trying to init Client with Network already initialized'')"
  by (simp add: World_initClient_def andThen_def Assert_def)

lemma initServer_Inr:
  "World_initServer port username w = Inr w1 \<longleftrightarrow>
     Network_initialized w = Inr False
     \<and> w1 = w\<lparr>m_network := m_server_get, m_server := Server_init port username (m_server w)\<rparr>"
  by (cases "Network_initialized w")
     (auto simp: World_initServer_def andThen_def Assert_def)

lemma initClient_Inr:
  "World_initClient w = Inr w1 \<longleftrightarrow>
     Network_initialized w = Inr False
     \<and> w1 = w\<lparr>m_network := m_client_get, m_client := Client_init (m_client w)\<rparr>"
  by (cases "Network_initialized w")
     (auto simp: World_initClient_def andThen_def Assert_def)

lemma initialized_after_initServer:
  "Network_initialized
     (w\<lparr>m_network := m_server_get, m_server := Server_init port username (m_server w)\<rparr>) = Inr True"
  by (simp add: Network_initialized_def Server_init_def)

lemma initialized_after_initClient:
  "Network_initialized
     (w\<lparr>m_network := m_client_get, m_client := Client_init (m_client w)\<rparr>) = Inr True"
  by (simp add: Network_initialized_def Client_init_def)

lemma destroyServer_after_initServer:
  "World_destroyServer
     (w\<lparr>m_network := m_server_get, m_server := Server_init port username (m_server w)\<rparr>) =
   Inr (w\<lparr>m_network := SNullNetwork,
           m_server := Server_destroy (Server_init port username (m_server w))\<rparr>)"
  by (simp add: World_destroyServer_def Network_destroy_def andThen_def)

lemma exampleWorld_disabled: "Network_initialized exampleWorld = Inr False"
  by (simp add: Network_initialized_def exampleWorld_def)

subsection \<open>The per-frame update\<close>

lemma update_entities_upto_Suc:
  "update_entities_upto cb (Suc n) r = update_entity cb (update_entities_upto cb n r) n"
  by (simp add: update_entities_upto_def)

lemma update_entities_upto_0: "update_entities_upto cb 0 r = r"
  by (simp add: update_entities_upto_def)

lemma update_entities_upto_log:
  "snd (update_entities_upto cb n r) = snd r @ map EntityUpdate [0..<n]"
  by (induction n) (simp_all add: update_entities_upto_Suc update_entities_upto_0 update_entity_def)

lemma update_tail_log:
  "snd (update_environment cb (update_physics cb r)) =
     snd r @ (if m_usePhysics (fst r) then [PhysicsSimulate] else []) @ [EnvironmentUpdate]"
  by (simp add: update_environment_def update_physics_def)

lemma upto_poolSize:
  assumes "keepsPoolSize cb"
  shows "m_poolSize (m_entityPool (fst (update_entities_upto cb n r))) =
     m_poolSize (m_entityPool (fst r))"
  using assms
  by (induction n)
     (simp_all add: update_entities_upto_0 update_entities_upto_Suc update_entity_def
        keepsPoolSize_def)

lemma loop_from:
  assumes k: "keepsPoolSize cb" and le: "i \<le> m_poolSize (m_entityPool (fst r))"
  shows "while_option (\<lambda>(i, r). i < m_poolSize (m_entityPool (fst r)))
       (\<lambda>(i, r). (Suc i, update_entity cb r i)) (i, update_entities_upto cb i r) =
     Some (m_poolSize (m_entityPool (fst r)), update_entities cb r)"
  using le
proof (induction "m_poolSize (m_entityPool (fst r)) - i" arbitrary: i)
  case 0
  then have "i = m_poolSize (m_entityPool (fst r))" by simp
  then show ?case
    by (subst while_option_unfold) (simp add: upto_poolSize [OF k] update_entities_def)
next
  case (Suc d)
  then have lt: "i < m_poolSize (m_entityPool (fst r))" by simp
  have "d = m_poolSize (m_entityPool (fst r)) - Suc i" using Suc.hyps(2) by simp
  from Suc.hyps(1) [OF this] lt
  have "while_option (\<lambda>(i, r). i < m_poolSize (m_entityPool (fst r)))
       (\<lambda>(i, r). (Suc i, update_entity cb r i)) (Suc i, update_entities_upto cb (Suc i) r) =
     Some (m_poolSize (m_entityPool (fst r)), update_entities cb r)"
    by simp
  then show ?case
    using lt by (subst while_option_unfold) (simp add: upto_poolSize [OF k] update_entities_upto_Suc)
qed

lemma update_entities_loop_eq:
  "keepsPoolSize cb \<Longrightarrow> update_entities_loop cb r = Some (update_entities cb r)"
  using loop_from [of cb 0 r] by (simp add: update_entities_loop_def update_entities_upto_0)

lemma World_update_unfold:
  assumes "keepsPoolSize cb"
  shows "World_update cb (w, l) =
     (case Network_update cb w of
        Inl f \<Rightarrow> Some (Inl f)
      | Inr w1 \<Rightarrow>
          (case SystemManager_update cb w1 of
             Inl f \<Rightarrow> Some (Inl f)
           | Inr w2 \<Rightarrow>
               Some (Inr (update_environment cb (update_physics cb
                  (update_entities cb (w2, l @ [NetworkUpdate, SystemManagerUpdate])))))))"
  by (simp add: World_update_def update_network_def update_systems_def andThen_def
      update_entities_loop_eq [OF assms] split: sum.splits)

lemma idle_keepsPoolSize: "keepsPoolSize idleCollaborators"
  by (simp add: keepsPoolSize_def idleCollaborators_def)

lemma stepping_keepsPoolSize: "keepsPoolSize steppingCollaborators"
  by (simp add: keepsPoolSize_def steppingCollaborators_def idleCollaborators_def)

lemma exampleWorld_bodyWrites: "bodyWrites exampleWorld (1, Some 0) 0 restPose"
  by (simp add: bodyWrites_def exampleWorld_def restPose_def m_poolSize_def freshComponent_def)

lemma exampleWorld_physics:
  "PhysicsSystem_update [(1, Some 0)] exampleWorld = Inr (writePose 0 restPose exampleWorld)"
proof -
  have "PhysicsSystem_update_body (1, Some 0) exampleWorld = Inr (writePose 0 restPose exampleWorld)"
    using exampleWorld_bodyWrites by (subst body_Inr) blast
  then show ?thesis by (simp add: andThen_def)
qed

lemma exampleWorld_systems:
  "SystemManager_update cb exampleWorld = Inr (writePose 0 restPose exampleWorld)"
proof -
  have "m_systemManager exampleWorld = [PhysicsSystem [(1, Some 0)]]"
    by (simp add: exampleWorld_def)
  then show ?thesis
    using exampleWorld_physics by (simp add: SystemManager_update_def andThen_def)
qed

lemma exampleWorld_network: "Network_update cb exampleWorld = Inr exampleWorld"
  by (simp add: Network_update_def exampleWorld_def)

lemma idle_entities_upto: "fst (update_entities_upto idleCollaborators n r) = fst r"
  by (induction n)
     (simp_all add: update_entities_upto_Suc update_entities_upto_0 update_entity_def
        idleCollaborators_def)

lemma exampleWorld_poolSize: "m_poolSize (m_entityPool exampleWorld) = 2"
  by (simp add: exampleWorld_def m_poolSize_def)

lemma upt_2: "[0..<2] = [0, Suc 0]"
  by (simp add: numeral_2_eq_2)

lemma update_entities_upto_fst:
  "fst (update_entities_upto cb n r) = foldl (\<lambda>s i. Entity_update cb i s) (fst r) [0..<n]"
  by (induction n)
     (simp_all add: update_entities_upto_Suc update_entities_upto_0 update_entity_def)

lemma update_entities_eq:
  "update_entities cb (w, l) =
     (foldl (\<lambda>s i. Entity_update cb i s) w [0..<m_poolSize (m_entityPool w)],
      l @ map EntityUpdate [0..<m_poolSize (m_entityPool w)])"
  by (simp add: prod_eq_iff update_entities_def update_entities_upto_fst update_entities_upto_log)

lemma SystemManager_update_each_others:
  "SystemManager_update_each cb (map OtherSystem ns) w =
     Inr (foldl (\<lambda>s n. System_update cb n s) w ns)"
  by (induction ns arbitrary: w) simp_all

lemma SystemManager_update_each_append:
  "SystemManager_update_each cb (xs @ ys) w =
     andThen (SystemManager_update_each cb xs w) (SystemManager_update_each cb ys)"
proof (induction xs arbitrary: w)
  case Nil
  show ?case by (simp add: andThen_def)
next
  case (Cons x xs)
  show ?case
  proof (cases x)
    case (PhysicsSystem ents)
    then show ?thesis
      by (cases "PhysicsSystem_update ents w") (simp_all add: andThen_def Cons.IH)
  next
    case (OtherSystem n)
    then show ?thesis by (simp add: Cons.IH)
  qed
qed

lemma Network_update_Inr:
  "Network_update cb w = Inr w1 \<longleftrightarrow>
     m_network w \<noteq> nullptr
     \<and> w1 = (if m_network w = m_server_get then Server_update cb w
             else if m_network w = m_client_get then Client_update cb w
             else w)"
  by (cases "m_network w") (auto simp: Network_update_def)

lemma World_update_Inr:
  assumes "keepsPoolSize cb"
  shows "World_update cb (w, l) = Some (Inr (w', l')) \<longleftrightarrow>
     (\<exists>w1 w2 w3. Network_update cb w = Inr w1 \<and> SystemManager_update cb w1 = Inr w2
        \<and> w3 = foldl (\<lambda>s i. Entity_update cb i s) w2 [0..<m_poolSize (m_entityPool w2)]
        \<and> w' = Environment_update cb
               (if m_usePhysics w3 then w3\<lparr>m_PScene := PScene_simulate cb (m_PScene w3)\<rparr> else w3)
        \<and> l' = l @ [NetworkUpdate, SystemManagerUpdate]
                 @ map EntityUpdate [0..<m_poolSize (m_entityPool w2)]
                 @ (if m_usePhysics w3 then [PhysicsSimulate] else [])
                 @ [EnvironmentUpdate])"
proof (cases "Network_update cb w")
  case (Inl f)
  then show ?thesis by (simp add: World_update_unfold [OF assms])
next
  case n: (Inr w1)
  show ?thesis
  proof (cases "SystemManager_update cb w1")
    case (Inl f)
    then show ?thesis using n by (simp add: World_update_unfold [OF assms])
  next
    case s: (Inr w2)
    show ?thesis
      using n s
      by (auto simp: World_update_unfold [OF assms] update_entities_eq update_environment_def
          update_physics_def)
  qed
qed

subsection \<open>Liveness and the physics system\<close>

lemma setAlive_components:
  "m_components (m_pool (m_entityPool (setAlive j b w)) ! i) =
     m_components (m_pool (m_entityPool w) ! i)"
  by (cases "i = j"; cases "j < length (m_pool (m_entityPool w))")
     (simp_all add: setAlive_def list_update_beyond)

lemma setAlive_frame [simp]:
  "m_poolSize (m_entityPool (setAlive j b w)) = m_poolSize (m_entityPool w)"
  "m_componentFactory (setAlive j b w) = m_componentFactory w"
  "m_PScene (setAlive j b w) = m_PScene w"
  by (simp_all add: setAlive_def m_poolSize_def)

lemma setAlive_getComponent:
  "Entity_getComponent k e (setAlive j b w) = Entity_getComponent k e w"
  by (cases e) (simp_all add: Entity_getComponent_def deref_def andThen_def setAlive_components)

lemma setAlive_getGlobalPose: "getGlobalPose c (setAlive j b w) = getGlobalPose c w"
  by (simp add: getGlobalPose_def andThen_def split: sum.splits option.splits)

lemma setAlive_writeComponent:
  "writeComponent k c upd (setAlive j b w) =
     (case writeComponent k c upd w of Inl f \<Rightarrow> Inl f | Inr w' \<Rightarrow> Inr (setAlive j b w'))"
  by (cases "derefC (m_componentFactory w) k c")
     (simp_all add: writeComponent_def andThen_def, simp add: setAlive_def)

lemma setAlive_body:
  "PhysicsSystem_update_body x (setAlive j b w) =
     (case PhysicsSystem_update_body x w of Inl f \<Rightarrow> Inl f | Inr w' \<Rightarrow> Inr (setAlive j b w'))"
  unfolding PhysicsSystem_update_body_def setAlive_getComponent setAlive_getGlobalPose
    SceneComponent_setPosition_def SceneComponent_setOrientation_def setAlive_writeComponent
  by (simp add: andThen_def setAlive_writeComponent split: sum.splits)

lemma PhysicsSystem_update_setAlive:
  "PhysicsSystem_update ents (setAlive j b w) =
     (case PhysicsSystem_update ents w of Inl f \<Rightarrow> Inl f | Inr w' \<Rightarrow> Inr (setAlive j b w'))"
proof (induction ents arbitrary: w)
  case Nil
  show ?case by simp
next
  case (Cons x rest)
  show ?case
    by (cases "PhysicsSystem_update_body x w") (simp_all add: setAlive_body andThen_def Cons.IH)
qed

lemma PhysicsSystem_update_no_physics:
  assumes "Entity_getComponent Physics e w = Inr None"
  shows "PhysicsSystem_update ((ident, e) # rest) w = Inl NullDereference"
proof -
  obtain r where "Entity_getComponent Scene e w = Inr r"
    using assms by (cases e) (auto simp: Entity_getComponent_def deref_def andThen_def split: if_splits)
  then show ?thesis
    using assms
    by (simp add: PhysicsSystem_update_body_def andThen_def getGlobalPose_def derefC_def)
qed

lemma destroyedWorld_destroyed: "World_destroyEntity (Some 0) exampleWorld = Inr destroyedWorld"
  by (simp add: destroyEntity_Inr destroyedWorld_def exampleWorld_def m_poolSize_def
      EntityPool_destroy_def)

lemma destroyedWorld_no_physics:
  "Entity_getComponent Physics (Some 0) destroyedWorld = Inr None"
  by (simp add: Entity_getComponent_def deref_def andThen_def destroyedWorld_def m_poolSize_def)

subsection \<open>One frame with a moving physics engine\<close>

lemma stepped_update:
  "World_update steppingCollaborators (exampleWorld, []) =
     Some (Inr (steppedWorld, [NetworkUpdate, SystemManagerUpdate, EntityUpdate 0, EntityUpdate 1,
                         PhysicsSimulate, EnvironmentUpdate]))"
proof -
  have ent: "\<And>n r. fst (update_entities_upto steppingCollaborators n r) = fst r"
  proof -
    fix n r show "fst (update_entities_upto steppingCollaborators n r) = fst r"
      by (induction n)
         (simp_all add: update_entities_upto_Suc update_entities_upto_0 update_entity_def
            steppingCollaborators_def idleCollaborators_def)
  qed
  let ?w2 = "writePose 0 restPose exampleWorld"
  let ?r3 = "update_entities steppingCollaborators (?w2, [NetworkUpdate, SystemManagerUpdate])"
  have f3: "fst ?r3 = ?w2"
    by (simp add: update_entities_def ent)
  have s3: "snd ?r3 = [NetworkUpdate, SystemManagerUpdate, EntityUpdate 0, EntityUpdate 1]"
    by (simp add: update_entities_def update_entities_upto_log exampleWorld_poolSize upt_2)
  have r3: "?r3 = (?w2, [NetworkUpdate, SystemManagerUpdate, EntityUpdate 0, EntityUpdate 1])"
    using f3 s3 by (simp add: prod_eq_iff)
  have ph: "m_usePhysics ?w2" by (simp add: exampleWorld_def)
  have "update_environment steppingCollaborators (update_physics steppingCollaborators ?r3) =
      (steppedWorld, [NetworkUpdate, SystemManagerUpdate, EntityUpdate 0, EntityUpdate 1,
                         PhysicsSimulate, EnvironmentUpdate])"
    unfolding r3 using ph
    by (simp add: update_environment_def update_physics_def steppedWorld_def
        steppingCollaborators_def idleCollaborators_def)
  then show ?thesis
    by (simp add: World_update_unfold [OF stepping_keepsPoolSize] exampleWorld_network
        exampleWorld_systems)
qed

lemma steppedWorld_scene:
  "c_position (m_componentFactory steppedWorld Scene ! 0) = (1, 2, 3)
   \<and> c_orientation (m_componentFactory steppedWorld Scene ! 0) = (1, 0, 0, 0)
   \<and> m_PScene steppedWorld 0 = Some movedPose"
  by (simp add: steppedWorld_def writePose_def exampleWorld_def restPose_def)

lemma stepping_entities_fold:
  "foldl (\<lambda>s i. Entity_update steppingCollaborators i s) w xs = w"
  by (induction xs) (simp_all add: steppingCollaborators_def idleCollaborators_def)

lemma idle_entities_fold:
  "foldl (\<lambda>s i. Entity_update idleCollaborators i s) w xs = w"
  by (induction xs) (simp_all add: idleCollaborators_def)

lemma busyWorld_bodyWrites: "bodyWrites busyWorld (1, Some 0) 0 restPose"
  using exampleWorld_bodyWrites by (simp add: bodyWrites_def busyWorld_def)

lemma busyWorld_physics:
  "PhysicsSystem_update [(1, Some 0)] busyWorld = Inr (writePose 0 restPose busyWorld)"
proof -
  have "PhysicsSystem_update_body (1, Some 0) busyWorld = Inr (writePose 0 restPose busyWorld)"
    using busyWorld_bodyWrites by (subst body_Inr) blast
  then show ?thesis by (simp add: andThen_def)
qed

lemma busyWorld_network: "Network_update cb busyWorld = Inr busyWorld"
  by (simp add: Network_update_def busyWorld_def exampleWorld_def)

lemma busyWorld_systems:
  "SystemManager_update steppingCollaborators busyWorld = Inr (writePose 0 restPose busyWorld)"
proof -
  have sys: "m_systemManager busyWorld =
      [OtherSystem 7, PhysicsSystem [(1, Some 0)], OtherSystem 8]"
    by (simp add: busyWorld_def)
  have id: "\<And>n w. System_update steppingCollaborators n w = w"
    by (simp add: steppingCollaborators_def idleCollaborators_def)
  have "SystemManager_update_each steppingCollaborators
        [OtherSystem 7, PhysicsSystem [(1, Some 0)], OtherSystem 8] busyWorld =
      andThen (PhysicsSystem_update [(1, Some 0)] busyWorld)
        (SystemManager_update_each steppingCollaborators [OtherSystem 8])"
    by (simp only: SystemManager_update_each.simps id)
  also have "\<dots> = Inr (writePose 0 restPose busyWorld)"
    unfolding busyWorld_physics by (simp add: andThen_def id)
  finally show ?thesis
    by (simp only: SystemManager_update_def sys)
qed

lemma busyWorld_update:
  "World_update steppingCollaborators (busyWorld, []) =
     Some (Inr ((writePose 0 restPose busyWorld)\<lparr>m_PScene := (m_PScene busyWorld)(0 \<mapsto> movedPose)\<rparr>,
                [NetworkUpdate, SystemManagerUpdate, EntityUpdate 0, EntityUpdate 1,
                 PhysicsSimulate, EnvironmentUpdate]))"
proof -
  have sz: "m_poolSize (m_entityPool busyWorld) = 2"
    by (simp add: busyWorld_def exampleWorld_poolSize)
  have ph: "m_usePhysics busyWorld"
    by (simp add: busyWorld_def exampleWorld_def)
  have env: "\<And>w. Environment_update steppingCollaborators w = w"
    and sim: "\<And>s. PScene_simulate steppingCollaborators s = s(0 \<mapsto> movedPose)"
    by (simp_all add: steppingCollaborators_def idleCollaborators_def)
  show ?thesis
    unfolding World_update_Inr [OF stepping_keepsPoolSize]
    using busyWorld_network [of steppingCollaborators] busyWorld_systems
    by (simp add: stepping_entities_fold sz ph env sim upt_2)
qed

subsection \<open>Attaching components\<close>




lemma attach_create_Some:
  assumes "firstUnused (m_componentFactory w k) = Some j"
  shows "World_attachComponent_create k w =
     (Some j, w\<lparr>m_componentFactory :=
         (m_componentFactory w)(k := (m_componentFactory w k)[j := freshComponent])\<rparr>)"
  using assms by (simp add: World_attachComponent_create_def ComponentFactory_create_def)



lemma Entity_attachComponent_Inr:
  "Entity_attachComponent k c e w = Inr w' \<longleftrightarrow>
     (\<exists>i. e = Some i \<and> i < length (m_pool (m_entityPool w))
        \<and> w' = w\<lparr>m_entityPool := (m_entityPool w)\<lparr>m_pool := (m_pool (m_entityPool w))[i :=
             (m_pool (m_entityPool w) ! i)\<lparr>m_components :=
                (m_components (m_pool (m_entityPool w) ! i))(k := c)\<rparr>]\<rparr>\<rparr>)"
  by (cases e) (auto simp: Entity_attachComponent_def deref_def andThen_def m_poolSize_def)











subsection \<open>The example after creation and after destruction\<close>

lemma twoEntityWorld_created: "World_createEntity exampleWorld = Inr (Some 1, twoEntityWorld)"
  using createEntity_Some [OF exampleWorld_firstFree]
  by (simp add: twoEntityWorld_def exampleWorld_def)

lemma twoEntityWorld_destroy:
  "m_alive (m_pool (m_entityPool twoEntityWorld) ! 1)
   \<and> (\<exists>w'. World_destroyEntity (Some 1) twoEntityWorld = Inr w'
         \<and> \<not> m_alive (m_pool (m_entityPool w') ! 1))"
  by (simp add: destroyEntity_Inr twoEntityWorld_def exampleWorld_def m_poolSize_def
      EntityPool_destroy_def)

subsection \<open>Functions of the World that attach nothing\<close>


















subsection \<open>The example with a camera and a player\<close>

lemma exampleWorld_camera_unused: "firstUnused (m_componentFactory exampleWorld Camera) = Some 0"
  by (simp add: exampleWorld_def unusedComponent_def freshComponent_def)











subsection \<open>The phases of a frame\<close>

text \<open>
  Claim C1. As long as no update of an entity changes the size of the pool, a call of
  \<^verbatim>\<open>World::update\<close> ends, in a fault or by returning, and it returns exactly when the
  network update and the update of the system manager do. Whenever it returns, the world
  it leaves is the world it found, taken through the five phases in this order: the
  update of the network that the network pointer selects; the update of the system
  manager (for systems other than the physics system: the update of each, in
  registration order); the update of every slot of the pool, in index order; the
  physics step, exactly when physics is enabled at that point; and the update of the
  environment. The calls it made are these, in this order.
\<close>

theorem World_update_phases:
  assumes fixed: "keepsPoolSize cb"
  shows "(World_update cb (w, l) = Some (Inr (w', l')) \<longrightarrow>
      (\<exists>w1 w2 w3 w4.
         m_network w \<noteq> nullptr
         \<and> w1 = (if m_network w = m_server_get then Server_update cb w
                 else if m_network w = m_client_get then Client_update cb w
                 else w)
         \<and> SystemManager_update_each cb (m_systemManager w1) w1 = Inr w2
         \<and> (\<forall>ns. m_systemManager w1 = map OtherSystem ns \<longrightarrow>
               w2 = foldl (\<lambda>s n. System_update cb n s) w1 ns)
         \<and> w3 = foldl (\<lambda>s i. Entity_update cb i s) w2 [0..<m_poolSize (m_entityPool w2)]
         \<and> w4 = (if m_usePhysics w3
                 then w3\<lparr>m_PScene := PScene_simulate cb (m_PScene w3)\<rparr> else w3)
         \<and> w' = Environment_update cb w4
         \<and> l' = l @ [NetworkUpdate, SystemManagerUpdate]
                  @ map EntityUpdate [0..<m_poolSize (m_entityPool w2)]
                  @ (if m_usePhysics w3 then [PhysicsSimulate] else [])
                  @ [EnvironmentUpdate]))
   \<and> ((\<exists>r. World_update cb (w, l) = Some (Inr r)) \<longleftrightarrow>
        (\<exists>w1 w2. Network_update cb w = Inr w1 \<and> SystemManager_update cb w1 = Inr w2))
   \<and> (\<exists>res. World_update cb (w, l) = Some res)"
proof (intro conjI impI)
  assume up: "World_update cb (w, l) = Some (Inr (w', l'))"
  then obtain w1 w2 w3 where n: "Network_update cb w = Inr w1"
    and s: "SystemManager_update cb w1 = Inr w2"
    and w3: "w3 = foldl (\<lambda>s i. Entity_update cb i s) w2 [0..<m_poolSize (m_entityPool w2)]"
    and w': "w' = Environment_update cb
               (if m_usePhysics w3 then w3\<lparr>m_PScene := PScene_simulate cb (m_PScene w3)\<rparr> else w3)"
    and l': "l' = l @ [NetworkUpdate, SystemManagerUpdate]
                 @ map EntityUpdate [0..<m_poolSize (m_entityPool w2)]
                 @ (if m_usePhysics w3 then [PhysicsSimulate] else [])
                 @ [EnvironmentUpdate]"
    unfolding World_update_Inr [OF fixed] by blast
  have nn: "m_network w \<noteq> nullptr"
    and w1: "w1 = (if m_network w = m_server_get then Server_update cb w
                 else if m_network w = m_client_get then Client_update cb w
                 else w)"
    using n unfolding Network_update_Inr by blast+
  have s': "SystemManager_update_each cb (m_systemManager w1) w1 = Inr w2"
    using s by (simp add: SystemManager_update_def)
  have others: "\<forall>ns. m_systemManager w1 = map OtherSystem ns \<longrightarrow>
               w2 = foldl (\<lambda>s n. System_update cb n s) w1 ns"
    using s' by (auto simp: SystemManager_update_each_others)
  define w4 where "w4 = (if m_usePhysics w3
                 then w3\<lparr>m_PScene := PScene_simulate cb (m_PScene w3)\<rparr> else w3)"
  have w'4: "w' = Environment_update cb w4"
    using w' by (simp add: w4_def)
  show "\<exists>w1 w2 w3 w4.
         m_network w \<noteq> nullptr
         \<and> w1 = (if m_network w = m_server_get then Server_update cb w
                 else if m_network w = m_client_get then Client_update cb w
                 else w)
         \<and> SystemManager_update_each cb (m_systemManager w1) w1 = Inr w2
         \<and> (\<forall>ns. m_systemManager w1 = map OtherSystem ns \<longrightarrow>
               w2 = foldl (\<lambda>s n. System_update cb n s) w1 ns)
         \<and> w3 = foldl (\<lambda>s i. Entity_update cb i s) w2 [0..<m_poolSize (m_entityPool w2)]
         \<and> w4 = (if m_usePhysics w3
                 then w3\<lparr>m_PScene := PScene_simulate cb (m_PScene w3)\<rparr> else w3)
         \<and> w' = Environment_update cb w4
         \<and> l' = l @ [NetworkUpdate, SystemManagerUpdate]
                  @ map EntityUpdate [0..<m_poolSize (m_entityPool w2)]
                  @ (if m_usePhysics w3 then [PhysicsSimulate] else [])
                  @ [EnvironmentUpdate]"
    using nn w1 s' others w3 w4_def w'4 l' by blast
next
  show "(\<exists>r. World_update cb (w, l) = Some (Inr r)) \<longleftrightarrow>
        (\<exists>w1 w2. Network_update cb w = Inr w1 \<and> SystemManager_update cb w1 = Inr w2)"
    by (auto simp: World_update_unfold [OF fixed] split: sum.splits)
next
  show "\<exists>res. World_update cb (w, l) = Some res"
    by (simp add: World_update_unfold [OF fixed] split: sum.splits)
qed

text \<open>One frame of the example with a physics engine that moves the rigid actor, and one
  frame of the example with physics disabled and no system registered.\<close>

theorem World_update_phases_witness:
  "keepsPoolSize steppingCollaborators
   \<and> World_update steppingCollaborators (exampleWorld, []) =
       Some (Inr (steppedWorld, [NetworkUpdate, SystemManagerUpdate, EntityUpdate 0,
                                 EntityUpdate 1, PhysicsSimulate, EnvironmentUpdate]))
   \<and> m_network exampleWorld \<noteq> nullptr
   \<and> (\<exists>w2 w3. SystemManager_update_each steppingCollaborators
                  (m_systemManager exampleWorld) exampleWorld = Inr w2
         \<and> w3 = foldl (\<lambda>s i. Entity_update steppingCollaborators i s) w2
                  [0..<m_poolSize (m_entityPool w2)]
         \<and> m_usePhysics w3
         \<and> steppedWorld = Environment_update steppingCollaborators
              (w3\<lparr>m_PScene := PScene_simulate steppingCollaborators (m_PScene w3)\<rparr>))
   \<and> keepsPoolSize idleCollaborators
   \<and> (\<exists>w'. World_update idleCollaborators
               (exampleWorld\<lparr>m_usePhysics := False, m_systemManager := []\<rparr>, []) =
       Some (Inr (w', [NetworkUpdate, SystemManagerUpdate, EntityUpdate 0, EntityUpdate (Suc 0),
                 EnvironmentUpdate]))
         \<and> w' = Environment_update idleCollaborators
                  (foldl (\<lambda>s i. Entity_update idleCollaborators i s)
                     (exampleWorld\<lparr>m_usePhysics := False, m_systemManager := []\<rparr>) [0..<2]))"
proof -
  let ?log = "[NetworkUpdate, SystemManagerUpdate, EntityUpdate 0, EntityUpdate 1,
      PhysicsSimulate, EnvironmentUpdate]"
  note th = World_update_phases [OF stepping_keepsPoolSize, of exampleWorld "[]" steppedWorld ?log]
  have net: "m_network exampleWorld = SNullNetwork" by (simp add: exampleWorld_def)
  obtain w1 w2 w3 w4 where nn: "m_network exampleWorld \<noteq> nullptr"
    and w1: "w1 = (if m_network exampleWorld = m_server_get
                   then Server_update steppingCollaborators exampleWorld
                   else if m_network exampleWorld = m_client_get
                   then Client_update steppingCollaborators exampleWorld
                   else exampleWorld)"
    and s: "SystemManager_update_each steppingCollaborators (m_systemManager w1) w1 = Inr w2"
    and w3: "w3 = foldl (\<lambda>s i. Entity_update steppingCollaborators i s) w2
                  [0..<m_poolSize (m_entityPool w2)]"
    and w4: "w4 = (if m_usePhysics w3
                then w3\<lparr>m_PScene := PScene_simulate steppingCollaborators (m_PScene w3)\<rparr>
                else w3)"
    and w': "steppedWorld = Environment_update steppingCollaborators w4"
    using th [THEN conjunct1, rule_format, OF stepped_update] by blast
  have w1e: "w1 = exampleWorld" using w1 net by simp
  have "w2 = writePose 0 restPose exampleWorld"
    using s exampleWorld_systems [of steppingCollaborators]
    by (simp add: w1e SystemManager_update_def)
  then have ph: "m_usePhysics w3"
    by (simp add: w3 stepping_entities_fold exampleWorld_def)
  have a: "\<exists>w2 w3. SystemManager_update_each steppingCollaborators
                  (m_systemManager exampleWorld) exampleWorld = Inr w2
         \<and> w3 = foldl (\<lambda>s i. Entity_update steppingCollaborators i s) w2
                  [0..<m_poolSize (m_entityPool w2)]
         \<and> m_usePhysics w3
         \<and> steppedWorld = Environment_update steppingCollaborators
              (w3\<lparr>m_PScene := PScene_simulate steppingCollaborators (m_PScene w3)\<rparr>)"
    using s w3 ph w' w4 unfolding w1e by auto
  let ?q = "exampleWorld\<lparr>m_usePhysics := False, m_systemManager := []\<rparr>"
  note tq = World_update_phases [OF idle_keepsPoolSize, of ?q "[]"]
  have qn: "Network_update idleCollaborators ?q = Inr ?q"
    by (simp add: Network_update_def exampleWorld_def)
  have qs: "SystemManager_update idleCollaborators ?q = Inr ?q"
    by (simp add: SystemManager_update_def)
  obtain r where "World_update idleCollaborators (?q, []) = Some (Inr r)"
    using tq [THEN conjunct2, THEN conjunct1] qn qs by blast
  then obtain qw ql where qup: "World_update idleCollaborators (?q, []) = Some (Inr (qw, ql))"
    by (cases r) simp
  obtain v1 v2 v3 v4 where v1: "v1 = (if m_network ?q = m_server_get
                   then Server_update idleCollaborators ?q
                   else if m_network ?q = m_client_get
                   then Client_update idleCollaborators ?q
                   else ?q)"
    and vs: "SystemManager_update_each idleCollaborators (m_systemManager v1) v1 = Inr v2"
    and v3: "v3 = foldl (\<lambda>s i. Entity_update idleCollaborators i s) v2
                  [0..<m_poolSize (m_entityPool v2)]"
    and v4: "v4 = (if m_usePhysics v3
                then v3\<lparr>m_PScene := PScene_simulate idleCollaborators (m_PScene v3)\<rparr>
                else v3)"
    and qw: "qw = Environment_update idleCollaborators v4"
    and ql: "ql = [] @ [NetworkUpdate, SystemManagerUpdate]
                  @ map EntityUpdate [0..<m_poolSize (m_entityPool v2)]
                  @ (if m_usePhysics v3 then [PhysicsSimulate] else [])
                  @ [EnvironmentUpdate]"
    using World_update_phases [OF idle_keepsPoolSize, of ?q "[]" qw ql,
        THEN conjunct1, rule_format, OF qup] by blast
  have v1e: "v1 = ?q" using v1 net by simp
  have v2e: "v2 = ?q" using vs by (simp add: v1e)
  have v3e: "v3 = ?q" by (simp add: v3 v2e idle_entities_fold)
  have qle: "ql = [NetworkUpdate, SystemManagerUpdate, EntityUpdate 0, EntityUpdate (Suc 0),
                 EnvironmentUpdate]"
    using ql by (simp add: v3e v2e exampleWorld_poolSize upt_2)
  have qwe: "qw = Environment_update idleCollaborators
                  (foldl (\<lambda>s i. Entity_update idleCollaborators i s) ?q [0..<2])"
    using qw v4 v3 by (simp add: v3e v2e exampleWorld_poolSize idle_entities_fold)
  have b: "\<exists>w'. World_update idleCollaborators (?q, []) =
       Some (Inr (w', [NetworkUpdate, SystemManagerUpdate, EntityUpdate 0, EntityUpdate (Suc 0),
                 EnvironmentUpdate]))
         \<and> w' = Environment_update idleCollaborators
                  (foldl (\<lambda>s i. Entity_update idleCollaborators i s) ?q [0..<2])"
    using qup qle qwe by blast
  from stepping_keepsPoolSize stepped_update nn a idle_keepsPoolSize b show ?thesis
    by (intro conjI) assumption+
qed

subsection \<open>Creation and destruction of entities\<close>

text \<open>The order of the two statements of \<^verbatim>\<open>World::destroyEntity\<close> can be seen in the
  state between them: were the slot returned to the pool while the entry is still in the
  map, identity 1 of the example would resolve to the freed slot 0.\<close>

lemma returned_before_erased:
  "\<not> lookupsLive (exampleWorld\<lparr>m_entityPool :=
        EntityPool_destroy (Some 0) (m_entityPool exampleWorld)\<rparr>)"
proof -
  let ?s = "exampleWorld\<lparr>m_entityPool :=
        EntityPool_destroy (Some 0) (m_entityPool exampleWorld)\<rparr>"
  have "World_getEntityPtr 1 ?s = Some 0"
    by (simp add: World_getEntityPtr_def exampleWorld_def)
  moreover have "\<not> m_alive (m_pool (m_entityPool ?s) ! 0)"
    by (simp add: EntityPool_destroy_def exampleWorld_def m_poolSize_def)
  ultimately show ?thesis
    unfolding lookupsLive_def by blast
qed

text \<open>
  Claim C2. In a world whose ID map agrees with the live slots of the pool:
  whenever \<^verbatim>\<open>World::createEntity\<close> returns a handle, the call went through two
  states: after the pool's create the handle is a slot that was free and is now live,
  with the map as before; after the insertion, the state returned with the handle, the
  map resolves the identity of the slot to the handle. Whenever
  \<^verbatim>\<open>World::destroyEntity\<close> returns, the call went through two states: after the erase
  the entry is gone and the pool is untouched (the slot is not yet returned); after the
  pool's destroy, the state returned, the slot is free and the map is as the erase left
  it. In each of these states a lookup resolves only to a live slot that carries the
  identity looked up, and in the two states of \<^verbatim>\<open>destroyEntity\<close> no identity resolves
  to the handle; in the state that either function returns the map agrees with the pool
  again. \<^verbatim>\<open>createEntity\<close> returns whenever a slot is free, and
  \<^verbatim>\<open>destroyEntity\<close> whenever the handle is a slot of the pool.
\<close>

theorem World_entity_map_order:
  assumes "wellFormed w"
  shows "(\<forall>e w'. World_createEntity w = Inr (e, w') \<longrightarrow>
            (\<exists>i w1. World_createEntity_states w = Inr (e, [w1, w'])
               \<and> e = Some i \<and> i < m_poolSize (m_entityPool w)
               \<and> \<not> m_alive (m_pool (m_entityPool w) ! i)
               \<and> m_alive (m_pool (m_entityPool w1) ! i)
               \<and> m_entityIDMap w1 = m_entityIDMap w
               \<and> m_entityPool w' = m_entityPool w1
               \<and> World_getEntityPtr (m_id (m_pool (m_entityPool w') ! i)) w' = e
               \<and> (\<forall>s \<in> set [w1, w']. lookupsLive s)
               \<and> wellFormed w'))
       \<and> (\<forall>e w'. World_destroyEntity e w = Inr w' \<longrightarrow>
            (\<exists>i w1. World_destroyEntity_states e w = Inr [w1, w']
               \<and> e = Some i
               \<and> m_entityPool w1 = m_entityPool w
               \<and> m_entityIDMap w1 =
                   (m_entityIDMap w)(m_id (m_pool (m_entityPool w) ! i) := None)
               \<and> m_entityIDMap w' = m_entityIDMap w1
               \<and> \<not> m_alive (m_pool (m_entityPool w') ! i)
               \<and> (\<forall>s \<in> set [w1, w'].
                     lookupsLive s \<and> (\<forall>ident. World_getEntityPtr ident s \<noteq> e))
               \<and> wellFormed w'))
       \<and> (\<forall>i. firstFree (m_pool (m_entityPool w)) = Some i \<longrightarrow>
            (\<exists>w'. World_createEntity w = Inr (Some i, w')))
       \<and> (\<forall>i. i < m_poolSize (m_entityPool w) \<longrightarrow>
            (\<exists>w'. World_destroyEntity (Some i) w = Inr w'))"
proof (intro conjI allI impI)
  have ag: "idMapAgrees w" using assms by (simp add: wellFormed_def)
  fix e w'
  assume cr: "World_createEntity w = Inr (e, w')"
  obtain i where ff: "firstFree (m_pool (m_entityPool w)) = Some i"
    using cr createEntity_None [of w] by (cases "firstFree (m_pool (m_entityPool w))") auto
  note fr = firstFree_Some [OF ff]
  let ?w1 = "w\<lparr>m_entityPool := (m_entityPool w)\<lparr>m_pool := (m_pool (m_entityPool w))[i :=
                \<lparr>m_id = m_nextID (m_entityPool w), m_alive = True, m_components = (\<lambda>k. None)\<rparr>],
              m_nextID := Suc (m_nextID (m_entityPool w))\<rparr>\<rparr>"
  have e: "e = Some i"
    and w': "w' = ?w1\<lparr>m_entityIDMap := (m_entityIDMap w)(m_nextID (m_entityPool w) \<mapsto> Some i)\<rparr>"
    using cr createEntity_Some [OF ff] by auto
  have st: "World_createEntity_states w = Inr (e, [?w1, w'])"
    using createEntity_states_Some [OF ff] by (simp add: e w')
  have wf': "wellFormed w'"
    using createEntity_wellFormed [OF assms cr] .
  have l1: "lookupsLive ?w1"
    using fr by (intro createEntity_pool_lookupsLive [OF ag, of i]) simp_all
  have l2: "lookupsLive w'"
    using wf' by (simp add: wellFormed_def idMapAgrees_lookupsLive)
  have a1: "i < m_poolSize (m_entityPool w)" "\<not> m_alive (m_pool (m_entityPool w) ! i)"
    using fr by (simp_all add: m_poolSize_def)
  have a2: "m_alive (m_pool (m_entityPool ?w1) ! i)" "m_entityIDMap ?w1 = m_entityIDMap w"
    using fr by simp_all
  have a3: "m_entityPool w' = m_entityPool ?w1" by (simp add: w')
  have a4: "World_getEntityPtr (m_id (m_pool (m_entityPool w') ! i)) w' = e"
    using fr by (simp add: w' e World_getEntityPtr_def)
  have a5: "\<forall>s \<in> set [?w1, w']. lookupsLive s"
    using l1 l2 by simp
  show "\<exists>i w1. World_createEntity_states w = Inr (e, [w1, w'])
               \<and> e = Some i \<and> i < m_poolSize (m_entityPool w)
               \<and> \<not> m_alive (m_pool (m_entityPool w) ! i)
               \<and> m_alive (m_pool (m_entityPool w1) ! i)
               \<and> m_entityIDMap w1 = m_entityIDMap w
               \<and> m_entityPool w' = m_entityPool w1
               \<and> World_getEntityPtr (m_id (m_pool (m_entityPool w') ! i)) w' = e
               \<and> (\<forall>s \<in> set [w1, w']. lookupsLive s)
               \<and> wellFormed w'"
    using st e a1 a2 a3 a4 a5 wf' by blast
next
  have ag: "idMapAgrees w" using assms by (simp add: wellFormed_def)
  fix e w'
  assume de: "World_destroyEntity e w = Inr w'"
  obtain i where e: "e = Some i" and i: "i < m_poolSize (m_entityPool w)"
    and w': "w' = w\<lparr>m_entityIDMap := (m_entityIDMap w)(m_id (m_pool (m_entityPool w) ! i) := None),
                   m_entityPool := EntityPool_destroy (Some i) (m_entityPool w)\<rparr>"
    using de by (auto simp: destroyEntity_Inr)
  let ?w1 = "w\<lparr>m_entityIDMap := (m_entityIDMap w)(m_id (m_pool (m_entityPool w) ! i) := None)\<rparr>"
  have st: "World_destroyEntity_states e w = Inr [?w1, w']"
    using i by (simp add: destroyEntity_states_Inr e w')
  have wf': "wellFormed w'"
    using destroyEntity_wellFormed [OF assms de] .
  have b1: "m_entityPool ?w1 = m_entityPool w"
    and b2: "m_entityIDMap ?w1 = (m_entityIDMap w)(m_id (m_pool (m_entityPool w) ! i) := None)"
    and b3: "m_entityIDMap w' = m_entityIDMap ?w1"
    by (simp_all add: w')
  have b4: "\<not> m_alive (m_pool (m_entityPool w') ! i)"
    using i EntityPool_destroy_alive [of i "m_entityPool w" i]
    by (simp add: w' m_poolSize_def)
  have l1: "lookupsLive ?w1"
    by (rule erased_lookupsLive [OF ag b2 b1])
  have l2: "lookupsLive w'"
    using wf' by (simp add: wellFormed_def idMapAgrees_lookupsLive)
  have n1: "\<forall>ident. World_getEntityPtr ident ?w1 \<noteq> e"
    unfolding e using erased_not_resolved [OF ag i b2] by blast
  have n2: "\<forall>ident. World_getEntityPtr ident w' \<noteq> e"
    unfolding e using erased_not_resolved [OF ag i, of w'] by (simp add: w')
  have b5: "\<forall>s \<in> set [?w1, w']. lookupsLive s \<and> (\<forall>ident. World_getEntityPtr ident s \<noteq> e)"
    using l1 l2 n1 n2 by simp
  show "\<exists>i w1. World_destroyEntity_states e w = Inr [w1, w']
               \<and> e = Some i
               \<and> m_entityPool w1 = m_entityPool w
               \<and> m_entityIDMap w1 =
                   (m_entityIDMap w)(m_id (m_pool (m_entityPool w) ! i) := None)
               \<and> m_entityIDMap w' = m_entityIDMap w1
               \<and> \<not> m_alive (m_pool (m_entityPool w') ! i)
               \<and> (\<forall>s \<in> set [w1, w'].
                     lookupsLive s \<and> (\<forall>ident. World_getEntityPtr ident s \<noteq> e))
               \<and> wellFormed w'"
    using st e b1 b2 b3 b4 b5 wf' by blast
next
  fix i assume "firstFree (m_pool (m_entityPool w)) = Some i"
  then show "\<exists>w'. World_createEntity w = Inr (Some i, w')"
    using createEntity_Some by blast
next
  fix i assume "i < m_poolSize (m_entityPool w)"
  then show "\<exists>w'. World_destroyEntity (Some i) w = Inr w'"
    by (simp add: destroyEntity_Inr)
qed

text \<open>In the example, \<^verbatim>\<open>createEntity\<close> takes the free slot 1 under the new identity 2,
  and \<^verbatim>\<open>destroyEntity\<close> of slot 0 erases identity 1 and frees the slot.\<close>

theorem World_entity_map_order_witness:
  "wellFormed exampleWorld
   \<and> firstFree (m_pool (m_entityPool exampleWorld)) = Some 1
   \<and> World_createEntity exampleWorld = Inr (Some 1, twoEntityWorld)
   \<and> (\<exists>w1. World_createEntity_states exampleWorld = Inr (Some 1, [w1, twoEntityWorld])
         \<and> \<not> m_alive (m_pool (m_entityPool exampleWorld) ! 1)
         \<and> m_alive (m_pool (m_entityPool w1) ! 1)
         \<and> m_entityIDMap w1 = m_entityIDMap exampleWorld
         \<and> m_entityPool twoEntityWorld = m_entityPool w1
         \<and> lookupsLive w1)
   \<and> lookupsLive twoEntityWorld
   \<and> World_getEntityPtr 2 twoEntityWorld = Some 1
   \<and> wellFormed twoEntityWorld
   \<and> 0 < m_poolSize (m_entityPool exampleWorld)
   \<and> World_destroyEntity (Some 0) exampleWorld = Inr destroyedWorld
   \<and> (\<exists>w1. World_destroyEntity_states (Some 0) exampleWorld = Inr [w1, destroyedWorld]
         \<and> m_entityPool w1 = m_entityPool exampleWorld
         \<and> m_entityIDMap w1 = (m_entityIDMap exampleWorld)(1 := None)
         \<and> m_entityIDMap destroyedWorld = m_entityIDMap w1
         \<and> lookupsLive w1
         \<and> (\<forall>ident. World_getEntityPtr ident w1 \<noteq> Some 0))
   \<and> \<not> m_alive (m_pool (m_entityPool destroyedWorld) ! 0)
   \<and> lookupsLive destroyedWorld
   \<and> (\<forall>ident. World_getEntityPtr ident destroyedWorld \<noteq> Some 0)
   \<and> wellFormed destroyedWorld"
proof -
  note wf = exampleWorld_wellFormed
  note th = World_entity_map_order [OF wf]
  note ff = exampleWorld_firstFree
  note cr = twoEntityWorld_created
  note de = destroyedWorld_destroyed
  have sz: "0 < m_poolSize (m_entityPool exampleWorld)"
    by (simp add: exampleWorld_poolSize)
  obtain i w1 where c: "World_createEntity_states exampleWorld = Inr (Some 1, [w1, twoEntityWorld])"
      "Some (1::nat) = Some i"
      "\<not> m_alive (m_pool (m_entityPool exampleWorld) ! i)"
      "m_alive (m_pool (m_entityPool w1) ! i)"
      "m_entityIDMap w1 = m_entityIDMap exampleWorld"
      "m_entityPool twoEntityWorld = m_entityPool w1"
      "World_getEntityPtr (m_id (m_pool (m_entityPool twoEntityWorld) ! i)) twoEntityWorld = Some 1"
      "\<forall>s \<in> set [w1, twoEntityWorld]. lookupsLive s"
      "wellFormed twoEntityWorld"
    using th [THEN conjunct1, rule_format, OF cr] by blast
  have i: "i = 1" using c(2) by simp
  have id2: "m_id (m_pool (m_entityPool twoEntityWorld) ! 1) = 2"
    by (simp add: twoEntityWorld_def exampleWorld_def)
  have c1: "\<exists>w1. World_createEntity_states exampleWorld = Inr (Some 1, [w1, twoEntityWorld])
         \<and> \<not> m_alive (m_pool (m_entityPool exampleWorld) ! 1)
         \<and> m_alive (m_pool (m_entityPool w1) ! 1)
         \<and> m_entityIDMap w1 = m_entityIDMap exampleWorld
         \<and> m_entityPool twoEntityWorld = m_entityPool w1
         \<and> lookupsLive w1"
    using c(1,3,4,5,6,8) unfolding i by auto
  have c2: "lookupsLive twoEntityWorld" using c(8) by simp
  have c3: "World_getEntityPtr 2 twoEntityWorld = Some 1"
    using c(7) unfolding i id2 .
  note c4 = c(9)
  obtain j v1 where d: "World_destroyEntity_states (Some 0) exampleWorld = Inr [v1, destroyedWorld]"
      "Some (0::nat) = Some j"
      "m_entityPool v1 = m_entityPool exampleWorld"
      "m_entityIDMap v1 =
         (m_entityIDMap exampleWorld)(m_id (m_pool (m_entityPool exampleWorld) ! j) := None)"
      "m_entityIDMap destroyedWorld = m_entityIDMap v1"
      "\<not> m_alive (m_pool (m_entityPool destroyedWorld) ! j)"
      "\<forall>s \<in> set [v1, destroyedWorld].
          lookupsLive s \<and> (\<forall>ident. World_getEntityPtr ident s \<noteq> Some 0)"
      "wellFormed destroyedWorld"
    using th [THEN conjunct2, THEN conjunct1, rule_format, OF de] by blast
  have j: "j = 0" using d(2) by simp
  have id1: "m_id (m_pool (m_entityPool exampleWorld) ! 0) = 1"
    by (simp add: exampleWorld_def)
  have d1: "\<exists>w1. World_destroyEntity_states (Some 0) exampleWorld = Inr [w1, destroyedWorld]
         \<and> m_entityPool w1 = m_entityPool exampleWorld
         \<and> m_entityIDMap w1 = (m_entityIDMap exampleWorld)(1 := None)
         \<and> m_entityIDMap destroyedWorld = m_entityIDMap w1
         \<and> lookupsLive w1
         \<and> (\<forall>ident. World_getEntityPtr ident w1 \<noteq> Some 0)"
    using d(1,3,4,5,7) unfolding j id1 by auto
  have d2: "\<not> m_alive (m_pool (m_entityPool destroyedWorld) ! 0)"
    using d(6) unfolding j .
  have d3: "lookupsLive destroyedWorld"
    and d4: "\<forall>ident. World_getEntityPtr ident destroyedWorld \<noteq> Some 0"
    using d(7) by simp_all
  note d5 = d(8)
  from wf ff cr c1 c2 c3 c4 sz de d1 d2 d3 d4 d5 show ?thesis
    by (intro conjI) assumption+
qed

subsection \<open>The order of attachComponent\<close>

text \<open>The order of the two statements of \<^verbatim>\<open>initComponent\<close> can be seen in the state
  between them: were the camera component of the example attached before its init, the
  entity would hold a component that is not initialised.\<close>

lemma attached_before_init:
  "\<exists>w1 s. World_attachComponent_create Camera exampleWorld = (Some 0, w1)
      \<and> Entity_attachComponent Camera (Some 0) (Some 0) w1 = Inr s
      \<and> \<not> attachedReady s"
proof -
  let ?w1 = "exampleWorld\<lparr>m_componentFactory :=
         (m_componentFactory exampleWorld)(Camera :=
            (m_componentFactory exampleWorld Camera)[0 := freshComponent])\<rparr>"
  note cr = attach_create_Some [OF exampleWorld_camera_unused]
  have sz: "0 < length (m_pool (m_entityPool ?w1))"
    by (simp add: exampleWorld_def)
  then obtain s where at: "Entity_attachComponent Camera (Some 0) (Some 0) ?w1 = Inr s"
    and s: "s = ?w1\<lparr>m_entityPool := (m_entityPool ?w1)\<lparr>m_pool := (m_pool (m_entityPool ?w1))[0 :=
             (m_pool (m_entityPool ?w1) ! 0)\<lparr>m_components :=
                (m_components (m_pool (m_entityPool ?w1) ! 0))(Camera := Some 0)\<rparr>]\<rparr>\<rparr>"
    by (auto simp: Entity_attachComponent_Inr)
  have held: "0 < m_poolSize (m_entityPool s)
      \<and> m_components (m_pool (m_entityPool s) ! 0) Camera = Some 0"
    by (simp add: s m_poolSize_def exampleWorld_def)
  have raw: "\<not> c_initialized (m_componentFactory s Camera ! 0)"
    by (simp add: s exampleWorld_def freshComponent_def)
  have "\<not> attachedReady s"
    unfolding attachedReady_def using held raw by blast
  then show ?thesis using cr at by blast
qed



subsection \<open>Network roles\<close>

text \<open>
  Claim C4. While the current role is initialised, \<^verbatim>\<open>initServer\<close> and \<^verbatim>\<open>initClient\<close>
  fail on their assertion. After a successful \<^verbatim>\<open>initServer\<close> the role is the
  initialised server and \<^verbatim>\<open>initClient\<close> fails on its assertion (and the same with the
  two exchanged), so a role is only entered from the disabled state. From a role that
  is not initialised, \<^verbatim>\<open>initServer\<close>, \<^verbatim>\<open>destroyServer\<close>, \<^verbatim>\<open>initClient\<close> succeed in
  turn, through the disabled role, and end in the initialised client.
\<close>

theorem World_network_role_guard:
  "(Network_initialized w = Inr True \<longrightarrow>
      World_initServer port username w =
        Inl (AssertFailed ''Trying to init Server with Network already initialized'')
      \<and> World_initClient w =
        Inl (AssertFailed ''Trying to init Client with Network already initialized''))
   \<and> (\<forall>w1. World_initServer port username w = Inr w1 \<longrightarrow>
         m_network w1 = m_server_get \<and> Network_initialized w1 = Inr True
         \<and> World_initClient w1 =
             Inl (AssertFailed ''Trying to init Client with Network already initialized''))
   \<and> (\<forall>w1. World_initClient w = Inr w1 \<longrightarrow>
         m_network w1 = m_client_get \<and> Network_initialized w1 = Inr True
         \<and> World_initServer port username w1 =
             Inl (AssertFailed ''Trying to init Server with Network already initialized''))
   \<and> (Network_initialized w = Inr False \<longrightarrow>
         (\<exists>w1 w2 w3. World_initServer port username w = Inr w1
            \<and> World_destroyServer w1 = Inr w2
            \<and> m_network w2 = SNullNetwork \<and> Network_initialized w2 = Inr False
            \<and> World_initClient w2 = Inr w3
            \<and> m_network w3 = m_client_get \<and> Network_initialized w3 = Inr True))"
proof (intro conjI allI impI)
  assume "Network_initialized w = Inr True"
  then show "World_initServer port username w =
        Inl (AssertFailed ''Trying to init Server with Network already initialized'')"
    and "World_initClient w =
        Inl (AssertFailed ''Trying to init Client with Network already initialized'')"
    by (rule initServer_guard, rule initClient_guard)
next
  fix w1 assume "World_initServer port username w = Inr w1"
  then have w1: "w1 = w\<lparr>m_network := m_server_get,
      m_server := Server_init port username (m_server w)\<rparr>"
    by (simp add: initServer_Inr)
  show "m_network w1 = m_server_get" by (simp add: w1)
  show i1: "Network_initialized w1 = Inr True"
    unfolding w1 by (rule initialized_after_initServer)
  show "World_initClient w1 =
      Inl (AssertFailed ''Trying to init Client with Network already initialized'')"
    using i1 by (rule initClient_guard)
next
  fix w1 assume "World_initClient w = Inr w1"
  then have w1: "w1 = w\<lparr>m_network := m_client_get, m_client := Client_init (m_client w)\<rparr>"
    by (simp add: initClient_Inr)
  show "m_network w1 = m_client_get" by (simp add: w1)
  show i1: "Network_initialized w1 = Inr True"
    unfolding w1 by (rule initialized_after_initClient)
  show "World_initServer port username w1 =
      Inl (AssertFailed ''Trying to init Server with Network already initialized'')"
    using i1 by (rule initServer_guard)
next
  assume dis: "Network_initialized w = Inr False"
  let ?w1 = "w\<lparr>m_network := m_server_get, m_server := Server_init port username (m_server w)\<rparr>"
  let ?w2 = "w\<lparr>m_network := SNullNetwork,
      m_server := Server_destroy (Server_init port username (m_server w))\<rparr>"
  let ?w3 = "?w2\<lparr>m_network := m_client_get, m_client := Client_init (m_client ?w2)\<rparr>"
  have s1: "World_initServer port username w = Inr ?w1"
    using dis by (simp add: initServer_Inr)
  have s2: "World_destroyServer ?w1 = Inr ?w2"
    by (rule destroyServer_after_initServer)
  have d2: "Network_initialized ?w2 = Inr False"
    by (simp add: Network_initialized_def)
  have s3: "World_initClient ?w2 = Inr ?w3"
    using d2 by (simp only: initClient_Inr simp_thms)
  have i3: "Network_initialized ?w3 = Inr True"
    by (rule initialized_after_initClient)
  have n2: "m_network ?w2 = SNullNetwork" and n3: "m_network ?w3 = m_client_get"
    by simp_all
  show "\<exists>w1 w2 w3. World_initServer port username w = Inr w1
            \<and> World_destroyServer w1 = Inr w2
            \<and> m_network w2 = SNullNetwork \<and> Network_initialized w2 = Inr False
            \<and> World_initClient w2 = Inr w3
            \<and> m_network w3 = m_client_get \<and> Network_initialized w3 = Inr True"
    using s1 s2 n2 d2 s3 n3 i3 by blast
qed

theorem World_network_role_guard_witness:
  "Network_initialized exampleWorld = Inr False
   \<and> (\<exists>w1 w2 w3. World_initServer 7777 ''host'' exampleWorld = Inr w1
         \<and> Network_initialized w1 = Inr True
         \<and> World_initServer 7777 ''host'' w1 =
             Inl (AssertFailed ''Trying to init Server with Network already initialized'')
         \<and> World_initClient w1 =
             Inl (AssertFailed ''Trying to init Client with Network already initialized'')
         \<and> World_destroyServer w1 = Inr w2
         \<and> Network_initialized w2 = Inr False
         \<and> World_initClient w2 = Inr w3
         \<and> Network_initialized w3 = Inr True)
   \<and> (\<exists>c1. World_initClient exampleWorld = Inr c1
         \<and> m_network c1 = m_client_get
         \<and> Network_initialized c1 = Inr True
         \<and> World_initServer 7777 ''host'' c1 =
             Inl (AssertFailed ''Trying to init Server with Network already initialized''))"
proof -
  note dis = exampleWorld_disabled
  obtain w1 w2 w3 where s: "World_initServer 7777 ''host'' exampleWorld = Inr w1"
      "World_destroyServer w1 = Inr w2" "Network_initialized w2 = Inr False"
      "World_initClient w2 = Inr w3" "Network_initialized w3 = Inr True"
    using World_network_role_guard [of exampleWorld 7777 "''host''"] dis by blast
  have i1: "Network_initialized w1 = Inr True"
    using World_network_role_guard [of exampleWorld 7777 "''host''"] s(1) by blast
  have g: "World_initServer 7777 ''host'' w1 =
             Inl (AssertFailed ''Trying to init Server with Network already initialized'')"
      "World_initClient w1 =
             Inl (AssertFailed ''Trying to init Client with Network already initialized'')"
    using World_network_role_guard [of w1 7777 "''host''"] i1 by blast+
  obtain c1 where c1: "World_initClient exampleWorld = Inr c1"
    using dis by (simp add: initClient_Inr)
  have c: "m_network c1 = m_client_get" "Network_initialized c1 = Inr True"
      "World_initServer 7777 ''host'' c1 =
             Inl (AssertFailed ''Trying to init Server with Network already initialized'')"
    using World_network_role_guard [of exampleWorld 7777 "''host''"] c1 by blast+
  have first: "\<exists>w1 w2 w3. World_initServer 7777 ''host'' exampleWorld = Inr w1
         \<and> Network_initialized w1 = Inr True
         \<and> World_initServer 7777 ''host'' w1 =
             Inl (AssertFailed ''Trying to init Server with Network already initialized'')
         \<and> World_initClient w1 =
             Inl (AssertFailed ''Trying to init Client with Network already initialized'')
         \<and> World_destroyServer w1 = Inr w2
         \<and> Network_initialized w2 = Inr False
         \<and> World_initClient w2 = Inr w3
         \<and> Network_initialized w3 = Inr True"
    using s i1 g by blast
  have second: "\<exists>c1. World_initClient exampleWorld = Inr c1
         \<and> m_network c1 = m_client_get
         \<and> Network_initialized c1 = Inr True
         \<and> World_initServer 7777 ''host'' c1 =
             Inl (AssertFailed ''Trying to init Server with Network already initialized'')"
    using c1 c by blast
  from dis first second show ?thesis
    by (intro conjI) assumption+
qed

subsection \<open>The pose read back by the physics system\<close>

text \<open>
  Claim C5, as amended. Take a frame that returns (no update of an entity changing the
  size of the pool) and a physics system registered in the system manager. Its update
  runs on the world left by the network update and by the systems registered before
  it, before the physics step of that frame. For a tracked entity it stores in the scene
  component, bit for bit, the position and orientation of the pose that the engine
  reports at that moment (when later tracked entries write to the same scene component,
  the pose of the last of them stays), and it leaves the engine untouched. The systems
  registered after it, the entity updates, the physics step if physics is enabled and the
  environment update of the frame come after, in this order: the pose that the physics
  step of the frame writes is not read back by the physics system in that frame.
\<close>

theorem PhysicsSystem_reads_pose_before_step:
  assumes fixed: "keepsPoolSize cb"
    and up: "World_update cb (w, l) = Some (Inr (w', l'))"
    and net: "Network_update cb w = Inr w1"
    and sys: "m_systemManager w1 = pre @ PhysicsSystem (xs @ x # ys) # post"
    and before: "SystemManager_update_each cb pre w1 = Inr wa"
    and wr: "bodyWrites wa x sc t"
    and later: "\<forall>y \<in> set ys. \<forall>t'. bodyWrites wa y sc t' \<longrightarrow> t' = t"
  shows "\<exists>wb w2 w3. PhysicsSystem_update (xs @ x # ys) wa = Inr wb
           \<and> posed wb sc t
           \<and> m_PScene wb = m_PScene wa
           \<and> SystemManager_update_each cb post wb = Inr w2
           \<and> w3 = foldl (\<lambda>s i. Entity_update cb i s) w2 [0..<m_poolSize (m_entityPool w2)]
           \<and> w' = Environment_update cb
                  (if m_usePhysics w3
                   then w3\<lparr>m_PScene := PScene_simulate cb (m_PScene w3)\<rparr> else w3)"
proof -
  obtain w2 w3 where s: "SystemManager_update cb w1 = Inr w2"
    and w3: "w3 = foldl (\<lambda>s i. Entity_update cb i s) w2 [0..<m_poolSize (m_entityPool w2)]"
    and w': "w' = Environment_update cb
               (if m_usePhysics w3 then w3\<lparr>m_PScene := PScene_simulate cb (m_PScene w3)\<rparr> else w3)"
    using up net unfolding World_update_Inr [OF fixed] by auto
  have "SystemManager_update_each cb (PhysicsSystem (xs @ x # ys) # post) wa = Inr w2"
    using s before
    by (simp add: SystemManager_update_def sys SystemManager_update_each_append andThen_def)
  then obtain wb where ps: "PhysicsSystem_update (xs @ x # ys) wa = Inr wb"
    and po: "SystemManager_update_each cb post wb = Inr w2"
    by (cases "PhysicsSystem_update (xs @ x # ys) wa") (simp_all add: andThen_def)
  have posed: "posed wb sc t"
    by (rule PhysicsSystem_update_writes [OF ps wr later])
  have "m_PScene wb = m_PScene wa"
    using PhysicsSystem_update_frame [OF ps] by simp
  with ps posed po w3 w' show ?thesis by blast
qed

text \<open>One frame of the example with two other systems around the physics system and an
  engine that moves the rigid actor: the scene component gets the pose from before the
  step.\<close>

theorem PhysicsSystem_reads_pose_before_step_witness:
  "keepsPoolSize steppingCollaborators
   \<and> World_update steppingCollaborators (busyWorld, []) =
       Some (Inr ((writePose 0 restPose busyWorld)\<lparr>m_PScene := (m_PScene busyWorld)(0 \<mapsto> movedPose)\<rparr>,
                  [NetworkUpdate, SystemManagerUpdate, EntityUpdate 0, EntityUpdate 1,
                   PhysicsSimulate, EnvironmentUpdate]))
   \<and> Network_update steppingCollaborators busyWorld = Inr busyWorld
   \<and> m_systemManager busyWorld = [OtherSystem 7] @ PhysicsSystem ([] @ (1, Some 0) # []) # [OtherSystem 8]
   \<and> SystemManager_update_each steppingCollaborators [OtherSystem 7] busyWorld = Inr busyWorld
   \<and> bodyWrites busyWorld (1, Some 0) 0 restPose
   \<and> (\<exists>wb w2 w3. PhysicsSystem_update [(1, Some 0)] busyWorld = Inr wb
         \<and> posed wb 0 restPose
         \<and> m_PScene wb = m_PScene busyWorld
         \<and> SystemManager_update_each steppingCollaborators [OtherSystem 8] wb = Inr w2
         \<and> w3 = foldl (\<lambda>s i. Entity_update steppingCollaborators i s) w2
                  [0..<m_poolSize (m_entityPool w2)]
         \<and> (writePose 0 restPose busyWorld)\<lparr>m_PScene := (m_PScene busyWorld)(0 \<mapsto> movedPose)\<rparr> =
             Environment_update steppingCollaborators
               (if m_usePhysics w3
                then w3\<lparr>m_PScene := PScene_simulate steppingCollaborators (m_PScene w3)\<rparr>
                else w3))"
proof -
  note net = busyWorld_network [of steppingCollaborators]
  have sys: "m_systemManager busyWorld =
      [OtherSystem 7] @ PhysicsSystem ([] @ (1, Some 0) # []) # [OtherSystem 8]"
    by (simp add: busyWorld_def)
  have before: "SystemManager_update_each steppingCollaborators [OtherSystem 7] busyWorld =
      Inr busyWorld"
    by (simp add: steppingCollaborators_def idleCollaborators_def)
  note wr = busyWorld_bodyWrites
  have later: "\<forall>y \<in> set []. \<forall>t'. bodyWrites busyWorld y 0 t' \<longrightarrow> t' = restPose"
    by simp
  have "\<exists>wb w2 w3. PhysicsSystem_update ([] @ (1, Some 0) # []) busyWorld = Inr wb
         \<and> posed wb 0 restPose
         \<and> m_PScene wb = m_PScene busyWorld
         \<and> SystemManager_update_each steppingCollaborators [OtherSystem 8] wb = Inr w2
         \<and> w3 = foldl (\<lambda>s i. Entity_update steppingCollaborators i s) w2
                  [0..<m_poolSize (m_entityPool w2)]
         \<and> (writePose 0 restPose busyWorld)\<lparr>m_PScene := (m_PScene busyWorld)(0 \<mapsto> movedPose)\<rparr> =
             Environment_update steppingCollaborators
               (if m_usePhysics w3
                then w3\<lparr>m_PScene := PScene_simulate steppingCollaborators (m_PScene w3)\<rparr>
                else w3)"
    by (rule PhysicsSystem_reads_pose_before_step
        [OF stepping_keepsPoolSize busyWorld_update net sys before wr later])
  then have c: "\<exists>wb w2 w3. PhysicsSystem_update [(1, Some 0)] busyWorld = Inr wb
         \<and> posed wb 0 restPose
         \<and> m_PScene wb = m_PScene busyWorld
         \<and> SystemManager_update_each steppingCollaborators [OtherSystem 8] wb = Inr w2
         \<and> w3 = foldl (\<lambda>s i. Entity_update steppingCollaborators i s) w2
                  [0..<m_poolSize (m_entityPool w2)]
         \<and> (writePose 0 restPose busyWorld)\<lparr>m_PScene := (m_PScene busyWorld)(0 \<mapsto> movedPose)\<rparr> =
             Environment_update steppingCollaborators
               (if m_usePhysics w3
                then w3\<lparr>m_PScene := PScene_simulate steppingCollaborators (m_PScene w3)\<rparr>
                else w3)"
    by (simp only: append_Nil)
  from stepping_keepsPoolSize busyWorld_update net sys before wr c show ?thesis
    by (intro conjI) assumption+
qed

text \<open>The claim as stated fails: when the physics step of a frame moves the rigid actor,
  the scene component after that frame still carries the pose from before the step, not
  the pose that the engine reports for the frame.\<close>

theorem PhysicsSystem_same_tick_counterexample:
  "World_update steppingCollaborators (exampleWorld, []) =
     Some (Inr (steppedWorld, [NetworkUpdate, SystemManagerUpdate, EntityUpdate 0,
                               EntityUpdate 1, PhysicsSimulate, EnvironmentUpdate]))
   \<and> bodyWrites steppedWorld (1, Some 0) 0 movedPose
   \<and> \<not> posed steppedWorld 0 movedPose
   \<and> c_position (m_componentFactory steppedWorld Scene ! 0) = (1, 2, 3)
   \<and> (vx (p movedPose), vy (p movedPose), vz (p movedPose)) = (4, 5, 6)"
proof -
  have a: "bodyWrites steppedWorld (1, Some 0) 0 movedPose"
    by (simp add: bodyWrites_def steppedWorld_def writePose_def exampleWorld_def
        m_poolSize_def freshComponent_def)
  have b: "\<not> posed steppedWorld 0 movedPose"
    using steppedWorld_scene by (simp add: posed_def movedPose_def)
  have c: "(vx (p movedPose), vy (p movedPose), vz (p movedPose)) = (4, 5, 6)"
    by (simp add: movedPose_def)
  show ?thesis using stepped_update a b c steppedWorld_scene by blast
qed

subsection \<open>The scan of the entity pool\<close>

lemma destroying_keepsPoolSize: "keepsPoolSize destroyingCollaborators"
proof -
  have "\<And>e w w'. World_destroyEntity e w = Inr w' \<Longrightarrow>
      m_poolSize (m_entityPool w') = m_poolSize (m_entityPool w)"
    by (auto simp: destroyEntity_Inr m_poolSize_def EntityPool_destroy_length)
  then show ?thesis
    by (auto simp: keepsPoolSize_def destroyingCollaborators_def idleCollaborators_def
        split: sum.splits)
qed

lemma twoEntityWorld_poolSize: "m_poolSize (m_entityPool twoEntityWorld) = 2"
  by (simp add: twoEntityWorld_def exampleWorld_def m_poolSize_def)

lemma destroyEntity_at_once:
  assumes "World_destroyEntity e w = Inr w'"
  shows "\<exists>i. e = Some i
      \<and> World_getEntityPtr (m_id (m_pool (m_entityPool w) ! i)) w' = None
      \<and> \<not> m_alive (m_pool (m_entityPool w') ! i)"
proof -
  obtain i where e: "e = Some i" and i: "i < m_poolSize (m_entityPool w)"
    and w': "w' = w\<lparr>m_entityIDMap := (m_entityIDMap w)(m_id (m_pool (m_entityPool w) ! i) := None),
                   m_entityPool := EntityPool_destroy (Some i) (m_entityPool w)\<rparr>"
    using assms by (auto simp: destroyEntity_Inr)
  have "World_getEntityPtr (m_id (m_pool (m_entityPool w) ! i)) w' = None"
    by (simp add: w' World_getEntityPtr_def)
  moreover have "\<not> m_alive (m_pool (m_entityPool w') ! i)"
    using i EntityPool_destroy_alive [of i "m_entityPool w" i]
    by (simp add: w' m_poolSize_def)
  ultimately show ?thesis using e by blast
qed

text \<open>
  Claim C6, as amended. As long as no update of an entity changes the size of the pool,
  the scan of \<^verbatim>\<open>World::update\<close> ends, having called the update of every slot of the
  pool, live or free, once each and in index order up to the pool size. It takes no
  snapshot: each update acts on the world as the updates before it left it. Destruction
  is not deferred either: when \<^verbatim>\<open>World::destroyEntity\<close> returns, the identity of the
  entity no longer resolves and, with the pool's destroy as the spec describes it, the
  slot is free.
\<close>

theorem update_entities_every_slot:
  assumes "keepsPoolSize cb"
  shows "update_entities_loop cb (w, l) =
       Some (foldl (\<lambda>s i. Entity_update cb i s) w [0..<m_poolSize (m_entityPool w)],
             l @ map EntityUpdate [0..<m_poolSize (m_entityPool w)])
   \<and> distinct (map EntityUpdate [0..<m_poolSize (m_entityPool w)])
   \<and> (\<forall>n. foldl (\<lambda>s i. Entity_update cb i s) w [0..<Suc n] =
           Entity_update cb n (foldl (\<lambda>s i. Entity_update cb i s) w [0..<n]))
   \<and> (\<forall>e w0 w1. World_destroyEntity e w0 = Inr w1 \<longrightarrow>
         (\<exists>i. e = Some i
            \<and> World_getEntityPtr (m_id (m_pool (m_entityPool w0) ! i)) w1 = None
            \<and> \<not> m_alive (m_pool (m_entityPool w1) ! i)))"
proof (intro conjI allI impI)
  show "update_entities_loop cb (w, l) =
       Some (foldl (\<lambda>s i. Entity_update cb i s) w [0..<m_poolSize (m_entityPool w)],
             l @ map EntityUpdate [0..<m_poolSize (m_entityPool w)])"
    by (simp add: update_entities_loop_eq [OF assms] update_entities_eq)
next
  show "distinct (map EntityUpdate [0..<m_poolSize (m_entityPool w)])"
    by (simp add: distinct_map inj_on_def)
next
  fix n
  show "foldl (\<lambda>s i. Entity_update cb i s) w [0..<Suc n] =
           Entity_update cb n (foldl (\<lambda>s i. Entity_update cb i s) w [0..<n])"
    by simp
next
  fix e w0 w1 assume "World_destroyEntity e w0 = Inr w1"
  then show "\<exists>i. e = Some i
            \<and> World_getEntityPtr (m_id (m_pool (m_entityPool w0) ! i)) w1 = None
            \<and> \<not> m_alive (m_pool (m_entityPool w1) ! i)"
    by (rule destroyEntity_at_once)
qed

text \<open>With the update of slot 0 that destroys the entity of slot 1 the size of the pool
  is kept, and the loop visits both slots.\<close>

theorem update_entities_every_slot_witness:
  "keepsPoolSize destroyingCollaborators
   \<and> update_entities_loop destroyingCollaborators (twoEntityWorld, []) =
       Some (Entity_update destroyingCollaborators (Suc 0)
               (Entity_update destroyingCollaborators 0 twoEntityWorld),
             [EntityUpdate 0, EntityUpdate (Suc 0)])
   \<and> (\<exists>w1. World_destroyEntity (Some 1) twoEntityWorld = Inr w1
         \<and> World_getEntityPtr 2 w1 = None
         \<and> \<not> m_alive (m_pool (m_entityPool w1) ! 1))"
proof -
  note th = update_entities_every_slot [OF destroying_keepsPoolSize, of twoEntityWorld "[]"]
  have a: "update_entities_loop destroyingCollaborators (twoEntityWorld, []) =
       Some (Entity_update destroyingCollaborators (Suc 0)
               (Entity_update destroyingCollaborators 0 twoEntityWorld),
             [EntityUpdate 0, EntityUpdate (Suc 0)])"
    using th [THEN conjunct1] by (simp add: twoEntityWorld_poolSize upt_2)
  obtain w1 where d: "World_destroyEntity (Some 1) twoEntityWorld = Inr w1"
    using twoEntityWorld_destroy by blast
  have id2: "m_id (m_pool (m_entityPool twoEntityWorld) ! 1) = 2"
    by (simp add: twoEntityWorld_def exampleWorld_def)
  obtain i where "Some (1::nat) = Some i"
      "World_getEntityPtr (m_id (m_pool (m_entityPool twoEntityWorld) ! i)) w1 = None"
      "\<not> m_alive (m_pool (m_entityPool w1) ! i)"
    using th [THEN conjunct2, THEN conjunct2, THEN conjunct2, rule_format, OF d] by blast
  then have "World_getEntityPtr 2 w1 = None" "\<not> m_alive (m_pool (m_entityPool w1) ! 1)"
    using id2 by auto
  then have b: "\<exists>w1. World_destroyEntity (Some 1) twoEntityWorld = Inr w1
         \<and> World_getEntityPtr 2 w1 = None
         \<and> \<not> m_alive (m_pool (m_entityPool w1) ! 1)"
    using d by blast
  from destroying_keepsPoolSize a b show ?thesis
    by (intro conjI) assumption+
qed

text \<open>The claim as stated fails. When the update of slot 0 destroys the entity of slot 1,
  the identity of that entity no longer resolves and its slot is free already when its
  turn comes in the same scan (nothing is deferred), and the slot is still visited; and
  a slot that is free when the frame starts is visited as well (the scan is not over a
  snapshot of the live slots).\<close>

theorem update_entities_no_snapshot_counterexample:
  "m_alive (m_pool (m_entityPool twoEntityWorld) ! 1)
   \<and> World_getEntityPtr 2 twoEntityWorld = Some 1
   \<and> World_getEntityPtr 2 (Entity_update destroyingCollaborators 0 twoEntityWorld) = None
   \<and> \<not> m_alive (m_pool (m_entityPool
          (Entity_update destroyingCollaborators 0 twoEntityWorld)) ! 1)
   \<and> update_entities_loop destroyingCollaborators (twoEntityWorld, []) =
       Some (Entity_update destroyingCollaborators 1
               (Entity_update destroyingCollaborators 0 twoEntityWorld),
             [EntityUpdate 0, EntityUpdate 1])
   \<and> \<not> m_alive (m_pool (m_entityPool exampleWorld) ! 1)
   \<and> map_option snd (update_entities_loop idleCollaborators (exampleWorld, [])) =
        Some [EntityUpdate 0, EntityUpdate 1]"
proof -
  have a: "m_alive (m_pool (m_entityPool twoEntityWorld) ! 1)"
    using twoEntityWorld_destroy by simp
  have a2: "World_getEntityPtr 2 twoEntityWorld = Some 1"
    by (simp add: World_getEntityPtr_def twoEntityWorld_def exampleWorld_def)
  obtain w' where d: "World_destroyEntity (Some 1) twoEntityWorld = Inr w'"
    using twoEntityWorld_destroy by blast
  have id2: "m_id (m_pool (m_entityPool twoEntityWorld) ! 1) = 2"
    by (simp add: twoEntityWorld_def exampleWorld_def)
  have gone: "World_getEntityPtr 2 w' = None" and dead: "\<not> m_alive (m_pool (m_entityPool w') ! 1)"
    using destroyEntity_at_once [OF d] id2 by auto
  have upd: "Entity_update destroyingCollaborators 0 twoEntityWorld = w'"
    using d by (simp add: destroyingCollaborators_def idleCollaborators_def)
  have b: "World_getEntityPtr 2 (Entity_update destroyingCollaborators 0 twoEntityWorld) = None"
    and b2: "\<not> m_alive (m_pool (m_entityPool
          (Entity_update destroyingCollaborators 0 twoEntityWorld)) ! 1)"
    using gone dead unfolding upd by simp_all
  have c: "update_entities_loop destroyingCollaborators (twoEntityWorld, []) =
       Some (Entity_update destroyingCollaborators 1
               (Entity_update destroyingCollaborators 0 twoEntityWorld),
             [EntityUpdate 0, EntityUpdate 1])"
    by (simp add: update_entities_loop_eq [OF destroying_keepsPoolSize] update_entities_eq
        twoEntityWorld_poolSize upt_2)
  have e: "\<not> m_alive (m_pool (m_entityPool exampleWorld) ! 1)"
    by (simp add: exampleWorld_def freeEntity_def)
  have f: "map_option snd (update_entities_loop idleCollaborators (exampleWorld, [])) =
        Some [EntityUpdate 0, EntityUpdate 1]"
    by (simp add: update_entities_loop_eq [OF idle_keepsPoolSize] update_entities_eq
        exampleWorld_poolSize upt_2)
  from a a2 b b2 c e f show ?thesis
    by (intro conjI) assumption+
qed

subsection \<open>Tracked entities that were destroyed\<close>

text \<open>
  Claim C7, as amended. \<^verbatim>\<open>PhysicsSystem::update\<close> never changes a tracked set: when it
  returns, the systems and the pool are as before. It does not consult liveness: setting
  the liveness flag of any slot beforehand changes neither whether it returns nor what it
  writes. It dereferences every tracked entity and the physics and scene components of
  each, in turn and unconditionally: it returns exactly when every tracked entity is a
  slot of the pool that holds a physics component whose rigid actor has a pose and a
  scene component, and then the scene component of every tracked entity carries the pose
  read for it (the pose of the last tracked entity that writes to it). At the first
  tracked entity that is null, or holds no physics component, or holds no scene
  component while its pose can be read, the update is a null dereference.
\<close>

theorem PhysicsSystem_update_unchecked:
  "(\<forall>w'. PhysicsSystem_update ents w = Inr w' \<longrightarrow>
       m_systemManager w' = m_systemManager w \<and> m_entityPool w' = m_entityPool w)
   \<and> PhysicsSystem_update ents (setAlive j b w) =
       (case PhysicsSystem_update ents w of Inl f \<Rightarrow> Inl f | Inr w' \<Rightarrow> Inr (setAlive j b w'))
   \<and> ((\<exists>w'. PhysicsSystem_update ents w = Inr w') \<longleftrightarrow>
        (\<forall>x \<in> set ents. \<exists>sc t. bodyWrites w x sc t))
   \<and> (\<forall>w' xs x ys sc t.
         PhysicsSystem_update ents w = Inr w' \<and> ents = xs @ x # ys \<and> bodyWrites w x sc t
         \<and> (\<forall>y \<in> set ys. \<forall>t'. bodyWrites w y sc t' \<longrightarrow> t' = t)
         \<longrightarrow> posed w' sc t)
   \<and> (\<forall>xs x ys.
         ents = xs @ x # ys \<and> (\<forall>y \<in> set xs. \<exists>sc t. bodyWrites w y sc t)
         \<and> (snd x = None \<or> Entity_getComponent Physics (snd x) w = Inr None
             \<or> (Entity_getComponent Scene (snd x) w = Inr None
                 \<and> (\<exists>pc t. Entity_getComponent Physics (snd x) w = Inr pc
                       \<and> getGlobalPose pc w = Inr t)))
         \<longrightarrow> PhysicsSystem_update ents w = Inl NullDereference)"
proof (intro conjI allI impI)
  fix w' assume "PhysicsSystem_update ents w = Inr w'"
  from PhysicsSystem_update_frame [OF this]
  show "m_systemManager w' = m_systemManager w" and "m_entityPool w' = m_entityPool w"
    by simp_all
next
  show "PhysicsSystem_update ents (setAlive j b w) =
       (case PhysicsSystem_update ents w of Inl f \<Rightarrow> Inl f | Inr w' \<Rightarrow> Inr (setAlive j b w'))"
    by (rule PhysicsSystem_update_setAlive)
next
  show "(\<exists>w'. PhysicsSystem_update ents w = Inr w') \<longleftrightarrow>
        (\<forall>x \<in> set ents. \<exists>sc t. bodyWrites w x sc t)"
    by (rule PhysicsSystem_update_returns)
next
  fix w' xs x ys sc t
  assume h: "PhysicsSystem_update ents w = Inr w' \<and> ents = xs @ x # ys \<and> bodyWrites w x sc t
         \<and> (\<forall>y \<in> set ys. \<forall>t'. bodyWrites w y sc t' \<longrightarrow> t' = t)"
  then have up: "PhysicsSystem_update (xs @ x # ys) w = Inr w'"
    and wr: "bodyWrites w x sc t"
    and later: "\<forall>y \<in> set ys. \<forall>t'. bodyWrites w y sc t' \<longrightarrow> t' = t"
    by auto
  show "posed w' sc t"
    by (rule PhysicsSystem_update_writes [OF up wr later])
next
  fix xs x ys
  assume h: "ents = xs @ x # ys \<and> (\<forall>y \<in> set xs. \<exists>sc t. bodyWrites w y sc t)
         \<and> (snd x = None \<or> Entity_getComponent Physics (snd x) w = Inr None
             \<or> (Entity_getComponent Scene (snd x) w = Inr None
                 \<and> (\<exists>pc t. Entity_getComponent Physics (snd x) w = Inr pc
                       \<and> getGlobalPose pc w = Inr t)))"
  then have e: "ents = xs @ x # ys"
    and before: "\<forall>y \<in> set xs. \<exists>sc t. bodyWrites w y sc t"
    and x: "snd x = None \<or> Entity_getComponent Physics (snd x) w = Inr None
             \<or> (Entity_getComponent Scene (snd x) w = Inr None
                 \<and> (\<exists>pc t. Entity_getComponent Physics (snd x) w = Inr pc
                       \<and> getGlobalPose pc w = Inr t))"
    by simp_all
  show "PhysicsSystem_update ents w = Inl NullDereference"
    unfolding e by (rule PhysicsSystem_update_null [OF before x])
qed

text \<open>In the example the tracked entity is written, with its liveness flag cleared as
  well; a second tracked entry for the free slot 1, which holds no component, is a null
  dereference although the first entry is in order.\<close>

theorem PhysicsSystem_update_unchecked_witness:
  "PhysicsSystem_update [(1, Some 0)] exampleWorld = Inr (writePose 0 restPose exampleWorld)
   \<and> m_systemManager (writePose 0 restPose exampleWorld) = m_systemManager exampleWorld
   \<and> m_entityPool (writePose 0 restPose exampleWorld) = m_entityPool exampleWorld
   \<and> PhysicsSystem_update [(1, Some 0)] (setAlive 0 False exampleWorld) =
        Inr (setAlive 0 False (writePose 0 restPose exampleWorld))
   \<and> bodyWrites exampleWorld (1, Some 0) 0 restPose
   \<and> posed (writePose 0 restPose exampleWorld) 0 restPose
   \<and> Entity_getComponent Physics (Some 1) exampleWorld = Inr None
   \<and> PhysicsSystem_update [(1, Some 0), (2, Some 1)] exampleWorld = Inl NullDereference
   \<and> \<not> (\<exists>w'. PhysicsSystem_update [(1, Some 0), (2, Some 1)] exampleWorld = Inr w')"
proof -
  note th = PhysicsSystem_update_unchecked [of "[(1, Some 0)]" exampleWorld 0 False]
  note ph = exampleWorld_physics
  note wr = exampleWorld_bodyWrites
  have a: "m_systemManager (writePose 0 restPose exampleWorld) = m_systemManager exampleWorld"
      "m_entityPool (writePose 0 restPose exampleWorld) = m_entityPool exampleWorld"
    using th [THEN conjunct1, rule_format, OF ph] by simp_all
  have b: "PhysicsSystem_update [(1, Some 0)] (setAlive 0 False exampleWorld) =
        Inr (setAlive 0 False (writePose 0 restPose exampleWorld))"
    using th [THEN conjunct2, THEN conjunct1] ph by simp
  have c: "posed (writePose 0 restPose exampleWorld) 0 restPose"
    using th [THEN conjunct2, THEN conjunct2, THEN conjunct2, THEN conjunct1, rule_format,
        of "writePose 0 restPose exampleWorld" "[]" "(1, Some 0)" "[]" 0 restPose] ph wr
    by simp
  note t2 = PhysicsSystem_update_unchecked [of "[(1, Some 0), (2, Some 1)]" exampleWorld 0 False]
  have np: "Entity_getComponent Physics (Some 1) exampleWorld = Inr None"
    by (simp add: Entity_getComponent_def deref_def andThen_def exampleWorld_def m_poolSize_def
        freeEntity_def)
  have d: "PhysicsSystem_update [(1, Some 0), (2, Some 1)] exampleWorld = Inl NullDereference"
    using t2 [THEN conjunct2, THEN conjunct2, THEN conjunct2, THEN conjunct2, rule_format,
        of "[(1, Some 0)]" "(2, Some 1)" "[]"] wr np
    by auto
  have nb: "\<not> (\<exists>sc t. bodyWrites exampleWorld (2, Some 1) sc t)"
    by (simp add: bodyWrites_def exampleWorld_def freeEntity_def)
  have e: "\<not> (\<exists>w'. PhysicsSystem_update [(1, Some 0), (2, Some 1)] exampleWorld = Inr w')"
    using t2 [THEN conjunct2, THEN conjunct2, THEN conjunct1] nb by simp
  from ph a b wr c np d e show ?thesis
    by (intro conjI) assumption+
qed

text \<open>The claim as stated fails. After \<^verbatim>\<open>destroyEntity\<close> of the tracked entity the
  physics system still tracks it, and the next update of the system manager faults on
  it instead of dropping it. With the liveness flag of the slot cleared and its
  components left in place, the update returns, having written the scene component of
  the dead entity, and the entity is still tracked.\<close>

theorem PhysicsSystem_tracks_destroyed_counterexample:
  "World_destroyEntity (Some 0) exampleWorld = Inr destroyedWorld
   \<and> \<not> m_alive (m_pool (m_entityPool destroyedWorld) ! 0)
   \<and> m_systemManager destroyedWorld = [PhysicsSystem [(1, Some 0)]]
   \<and> SystemManager_update idleCollaborators destroyedWorld = Inl NullDereference
   \<and> \<not> m_alive (m_pool (m_entityPool (setAlive 0 False exampleWorld)) ! 0)
   \<and> m_systemManager (setAlive 0 False exampleWorld) = [PhysicsSystem [(1, Some 0)]]
   \<and> SystemManager_update idleCollaborators (setAlive 0 False exampleWorld) =
        Inr (setAlive 0 False (writePose 0 restPose exampleWorld))
   \<and> m_systemManager (setAlive 0 False (writePose 0 restPose exampleWorld)) =
        [PhysicsSystem [(1, Some 0)]]"
proof -
  have a: "\<not> m_alive (m_pool (m_entityPool destroyedWorld) ! 0)"
    by (simp add: destroyedWorld_def)
  have b: "m_systemManager destroyedWorld = [PhysicsSystem [(1, Some 0)]]"
    by (simp add: destroyedWorld_def exampleWorld_def)
  have "PhysicsSystem_update [(1, Some 0)] destroyedWorld = Inl NullDereference"
    using destroyedWorld_no_physics by (rule PhysicsSystem_update_no_physics)
  then have c: "SystemManager_update idleCollaborators destroyedWorld = Inl NullDereference"
    using b by (simp add: SystemManager_update_def andThen_def)
  have d: "\<not> m_alive (m_pool (m_entityPool (setAlive 0 False exampleWorld)) ! 0)"
    by (simp add: setAlive_def exampleWorld_def)
  have e: "m_systemManager (setAlive 0 False exampleWorld) = [PhysicsSystem [(1, Some 0)]]"
    by (simp add: setAlive_def exampleWorld_def)
  have "PhysicsSystem_update [(1, Some 0)] (setAlive 0 False exampleWorld) =
        Inr (setAlive 0 False (writePose 0 restPose exampleWorld))"
    unfolding PhysicsSystem_update_setAlive exampleWorld_physics by simp
  then have f: "SystemManager_update idleCollaborators (setAlive 0 False exampleWorld) =
        Inr (setAlive 0 False (writePose 0 restPose exampleWorld))"
    using e by (simp add: SystemManager_update_def andThen_def)
  have g: "m_systemManager (setAlive 0 False (writePose 0 restPose exampleWorld)) =
        [PhysicsSystem [(1, Some 0)]]"
    by (simp add: setAlive_def exampleWorld_def)
  from destroyedWorld_destroyed a b c d e f g show ?thesis
    by (intro conjI) assumption+
qed

subsection \<open>The default network\<close>

text \<open>
  Claim C8, as amended. The World holds one network pointer beside the injected server
  and client, which \<^verbatim>\<open>init\<close> leaves as they are. \<^verbatim>\<open>init\<close> points it at the server when
  the server is initialised, else at the client when the client is initialised, else at
  the file-level \<^verbatim>\<open>SNullNetwork\<close>; \<^verbatim>\<open>destroyServer\<close> and \<^verbatim>\<open>destroyClient\<close> install
  \<^verbatim>\<open>SNullNetwork\<close> again.
\<close>

theorem World_network_pointer:
  "m_network (World_init n usePhysics w) =
     (if m_initialized (m_server w) then m_server_get
      else if c_connected (m_client w) then m_client_get
      else SNullNetwork)
   \<and> m_server (World_init n usePhysics w) = m_server w
   \<and> m_client (World_init n usePhysics w) = m_client w
   \<and> (\<forall>w'. World_destroyServer w = Inr w' \<longrightarrow> m_network w' = SNullNetwork)
   \<and> (\<forall>w'. World_destroyClient w = Inr w' \<longrightarrow> m_network w' = SNullNetwork)"
  by (auto simp: World_init_def World_initPhysics_def Let_def World_destroyServer_def
      World_destroyClient_def andThen_def split: sum.splits)

theorem World_network_pointer_witness:
  "m_network (World_init 8 True (World_new idleServer idleClient)) = SNullNetwork
   \<and> m_server (World_init 8 True (World_new idleServer idleClient)) = idleServer
   \<and> m_client (World_init 8 True (World_new idleServer idleClient)) = idleClient
   \<and> (\<exists>w1 w2. World_initServer 7777 ''host'' exampleWorld = Inr w1
         \<and> m_network (World_init 8 True w1) = m_server_get
         \<and> World_destroyServer w1 = Inr w2 \<and> m_network w2 = SNullNetwork)
   \<and> (\<exists>w1 w2. World_initClient exampleWorld = Inr w1
         \<and> m_network (World_init 8 True w1) = m_client_get
         \<and> World_destroyClient w1 = Inr w2 \<and> m_network w2 = SNullNetwork)"
proof -
  let ?s = "exampleWorld\<lparr>m_network := m_server_get,
      m_server := Server_init 7777 ''host'' (m_server exampleWorld)\<rparr>"
  let ?c = "exampleWorld\<lparr>m_network := m_client_get,
      m_client := Client_init (m_client exampleWorld)\<rparr>"
  have s1: "World_initServer 7777 ''host'' exampleWorld = Inr ?s"
    using exampleWorld_disabled by (simp add: initServer_Inr)
  have c1: "World_initClient exampleWorld = Inr ?c"
    using exampleWorld_disabled by (simp add: initClient_Inr)
  obtain s2 where s2: "World_destroyServer ?s = Inr s2"
    by (simp add: World_destroyServer_def Network_destroy_def andThen_def)
  obtain c2 where c2: "World_destroyClient ?c = Inr c2"
    by (simp add: World_destroyClient_def Network_destroy_def andThen_def)
  have a: "m_network (World_init 8 True (World_new idleServer idleClient)) = SNullNetwork"
      "m_server (World_init 8 True (World_new idleServer idleClient)) = idleServer"
      "m_client (World_init 8 True (World_new idleServer idleClient)) = idleClient"
    using World_network_pointer [of 8 True "World_new idleServer idleClient"]
    by (simp_all add: World_new_def idleServer_def idleClient_def)
  have b: "m_network (World_init 8 True ?s) = m_server_get" "m_network s2 = SNullNetwork"
    using World_network_pointer [of 8 True ?s] s2 by (simp_all add: Server_init_def)
  have c: "m_network (World_init 8 True ?c) = m_client_get" "m_network c2 = SNullNetwork"
    using World_network_pointer [of 8 True ?c] c2
    by (simp_all add: Client_init_def exampleWorld_def)
  show ?thesis using a b c s1 c1 s2 c2 by blast
qed

text \<open>The claim as stated fails: a World built with an idle server and an idle client
  has no strategy of its own after \<^verbatim>\<open>init\<close>; its pointer is the file-level default,
  and so is the pointer of any other such World.\<close>

theorem World_default_network_counterexample:
  "m_network (World_new idleServer idleClient) = nullptr
   \<and> m_network (World_init 8 True (World_new idleServer idleClient)) = SNullNetwork
   \<and> m_network (World_init 8 False exampleWorld) = SNullNetwork"
  by (simp add: World_init_def World_initPhysics_def World_new_def idleServer_def
      idleClient_def exampleWorld_def)

subsection \<open>Exhaustion of the entity pool\<close>

text \<open>
  Claim C9, as amended. \<^verbatim>\<open>create()\<close> returns a handle to a free slot or, when every slot
  is live, the null handle and an unchanged pool. \<^verbatim>\<open>World::createEntity\<close> does not test
  the handle: with a free slot it returns the handle, live and registered in the ID map
  under its identity; with an exhausted pool it dereferences the null handle, which is a
  fault and not a reported failure.
\<close>

theorem World_createEntity_unchecked:
  "(\<forall>i. firstFree (m_pool (m_entityPool w)) = Some i \<longrightarrow>
      (\<exists>w'. World_createEntity w = Inr (Some i, w')
         \<and> i < m_poolSize (m_entityPool w)
         \<and> \<not> m_alive (m_pool (m_entityPool w) ! i)
         \<and> m_alive (m_pool (m_entityPool w') ! i)
         \<and> m_entityIDMap w' (m_id (m_pool (m_entityPool w') ! i)) = Some (Some i)))
   \<and> (firstFree (m_pool (m_entityPool w)) = None \<longrightarrow>
        (\<forall>e \<in> set (m_pool (m_entityPool w)). m_alive e)
        \<and> EntityPool_create (m_entityPool w) = (None, m_entityPool w)
        \<and> World_createEntity w = Inl NullDereference)"
proof (intro conjI allI impI)
  fix i assume ff: "firstFree (m_pool (m_entityPool w)) = Some i"
  show "\<exists>w'. World_createEntity w = Inr (Some i, w')
         \<and> i < m_poolSize (m_entityPool w)
         \<and> \<not> m_alive (m_pool (m_entityPool w) ! i)
         \<and> m_alive (m_pool (m_entityPool w') ! i)
         \<and> m_entityIDMap w' (m_id (m_pool (m_entityPool w') ! i)) = Some (Some i)"
    using firstFree_Some [OF ff] createEntity_Some [OF ff]
    by (simp add: m_poolSize_def)
next
  assume ff: "firstFree (m_pool (m_entityPool w)) = None"
  show "\<forall>e \<in> set (m_pool (m_entityPool w)). m_alive e"
    using ff by (simp add: firstFree_None)
  show "EntityPool_create (m_entityPool w) = (None, m_entityPool w)"
    using ff by (simp add: EntityPool_create_def)
  show "World_createEntity w = Inl NullDereference"
    using createEntity_None [OF ff] .
qed

theorem World_createEntity_unchecked_witness:
  "firstFree (m_pool (m_entityPool exampleWorld)) = Some 1
   \<and> (\<exists>w'. World_createEntity exampleWorld = Inr (Some 1, w')
         \<and> 1 < m_poolSize (m_entityPool exampleWorld)
         \<and> \<not> m_alive (m_pool (m_entityPool exampleWorld) ! 1)
         \<and> m_alive (m_pool (m_entityPool w') ! 1)
         \<and> m_entityIDMap w' (m_id (m_pool (m_entityPool w') ! 1)) = Some (Some 1))
   \<and> firstFree (m_pool (m_entityPool exhaustedWorld)) = None
   \<and> EntityPool_create (m_entityPool exhaustedWorld) = (None, m_entityPool exhaustedWorld)
   \<and> World_createEntity exhaustedWorld = Inl NullDereference"
  using World_createEntity_unchecked [of exampleWorld]
    World_createEntity_unchecked [of exhaustedWorld]
    exampleWorld_firstFree exhaustedWorld_firstFree
  by simp

text \<open>The claim as stated fails on the exhausted pool: the failed result of \<^verbatim>\<open>create()\<close>
  is used unchecked.\<close>

theorem World_createEntity_exhausted_counterexample:
  "EntityPool_create (m_entityPool exhaustedWorld) = (None, m_entityPool exhaustedWorld)
   \<and> World_createEntity exhaustedWorld = Inl NullDereference"
  by (simp add: World_createEntity_def World_createEntity_states_def EntityPool_create_def
      exhaustedWorld_def deref_def andThen_def)

subsection \<open>The move-backward command\<close>

lemma writeComponent_Inr:
  "j < length (m_componentFactory w k) \<Longrightarrow>
   writeComponent k (Some j) upd w =
     Inr (w\<lparr>m_componentFactory :=
            (m_componentFactory w)(k := (m_componentFactory w k)[j := upd (m_componentFactory w k ! j)])\<rparr>)"
  by (simp add: writeComponent_def derefC_def andThen_def)

text \<open>
  Claim C10. For an entity that holds an actor component, \<^verbatim>\<open>execute\<close> returns with the
  moving-backward flag of that component set and \<^verbatim>\<open>unexecute\<close> returns with it
  cleared, whatever the flag was; \<^verbatim>\<open>execute\<close> after \<^verbatim>\<open>execute\<close> changes nothing, and
  \<^verbatim>\<open>unexecute\<close> after \<^verbatim>\<open>execute\<close> gives the world that \<^verbatim>\<open>unexecute\<close> alone gives,
  with the flag cleared, not the original world.
\<close>

theorem MoveBackward_sets_flag:
  assumes "Entity_getActorComponent e w = Inr (Some a)"
    and "a < length (m_componentFactory w Actor)"
  shows "\<exists>w1 w2. MoveBackwardCommand_execute e w = Inr w1
           \<and> c_movingBackward (m_componentFactory w1 Actor ! a)
           \<and> MoveBackwardCommand_unexecute e w = Inr w2
           \<and> \<not> c_movingBackward (m_componentFactory w2 Actor ! a)
           \<and> MoveBackwardCommand_execute e w1 = Inr w1
           \<and> MoveBackwardCommand_unexecute e w1 = Inr w2"
proof -
  let ?set = "\<lambda>b w. w\<lparr>m_componentFactory :=
            (m_componentFactory w)(Actor := (m_componentFactory w Actor)[a :=
               (m_componentFactory w Actor ! a)\<lparr>c_movingBackward := b\<rparr>])\<rparr>"
  have ex: "MoveBackwardCommand_execute e w = Inr (?set True w)"
    using assms
    by (simp add: MoveBackwardCommand_execute_def andThen_def
        ActorComponent_setMovingBackward_def writeComponent_Inr)
  have un: "MoveBackwardCommand_unexecute e w = Inr (?set False w)"
    using assms
    by (simp add: MoveBackwardCommand_unexecute_def andThen_def
        ActorComponent_setMovingBackward_def writeComponent_Inr)
  have get1: "Entity_getActorComponent e (?set True w) = Inr (Some a)"
    using assms(1) by (simp add: Entity_getActorComponent_def Entity_getComponent_def)
  have len1: "a < length (m_componentFactory (?set True w) Actor)"
    using assms(2) by simp
  have ex1: "MoveBackwardCommand_execute e (?set True w) = Inr (?set True (?set True w))"
    using get1 len1
    by (simp only: MoveBackwardCommand_execute_def andThen_def
        ActorComponent_setMovingBackward_def writeComponent_Inr sum.case)
  have un1: "MoveBackwardCommand_unexecute e (?set True w) = Inr (?set False (?set True w))"
    using get1 len1
    by (simp only: MoveBackwardCommand_unexecute_def andThen_def
        ActorComponent_setMovingBackward_def writeComponent_Inr sum.case)
  have idem: "?set True (?set True w) = ?set True w"
    using assms(2) by simp
  have over: "?set False (?set True w) = ?set False w"
    using assms(2) by simp
  show ?thesis
    using ex un ex1 un1 idem over assms(2) by simp
qed

text \<open>In the example the flag is set beforehand, so \<^verbatim>\<open>unexecute\<close> after \<^verbatim>\<open>execute\<close>
  does not restore it.\<close>

theorem MoveBackward_sets_flag_witness:
  "Entity_getActorComponent (Some 0) exampleWorld = Inr (Some 0)
   \<and> 0 < length (m_componentFactory exampleWorld Actor)
   \<and> c_movingBackward (m_componentFactory exampleWorld Actor ! 0)
   \<and> (\<exists>w1 w2. MoveBackwardCommand_execute (Some 0) exampleWorld = Inr w1
           \<and> c_movingBackward (m_componentFactory w1 Actor ! 0)
           \<and> MoveBackwardCommand_unexecute (Some 0) exampleWorld = Inr w2
           \<and> \<not> c_movingBackward (m_componentFactory w2 Actor ! 0)
           \<and> MoveBackwardCommand_execute (Some 0) w1 = Inr w1
           \<and> MoveBackwardCommand_unexecute (Some 0) w1 = Inr w2)"
proof -
  have h1: "Entity_getActorComponent (Some 0) exampleWorld = Inr (Some 0)"
    by (simp add: Entity_getActorComponent_def Entity_getComponent_def deref_def
        andThen_def exampleWorld_def m_poolSize_def)
  have h2: "0 < length (m_componentFactory exampleWorld Actor)"
    by (simp add: exampleWorld_def)
  have h3: "c_movingBackward (m_componentFactory exampleWorld Actor ! 0)"
    by (simp add: exampleWorld_def freshComponent_def)
  show ?thesis
    using h1 h2 h3 MoveBackward_sets_flag [OF h1 h2] by blast
qed

end
